theory Spec2Isabelle
  imports Main
begin

section \<open>The commit hook of ai-code-review, embedded in HOL\<close>

text \<open>
  The program is the \<^verbatim>\<open>prepare-commit-msg\<close> hook script of the repository, in the version
  that has \<^verbatim>\<open>getAIConfig\<close>, \<^verbatim>\<open>callWithRetry\<close>, \<^verbatim>\<open>loadReviewIgnore\<close>, \<^verbatim>\<open>patternToRegex\<close>,
  \<^verbatim>\<open>shouldIgnoreFile\<close> and \<^verbatim>\<open>filterDiff\<close>. Each definition below is one of its functions, a
  block of one, or a piece of the JavaScript runtime that it calls.

  Conventions of the embedding.
  \<^item> A JavaScript string is a \<^typ>\<open>string\<close>: the list of its code units. The character type
    has 256 values, so the model speaks about strings whose code units lie below 256; every
    character test below (line terminators, white space, lower case) is the JavaScript one
    restricted to that range.
  \<^item> A thrown value is a \<^emph>\<open>thrown\<close>; a computation that may throw returns
    \<open>thrown + 'a\<close> with \<open>Inl\<close> for the throw.
  \<^item> Where the JavaScript runtime does something this theory does not describe (a regular
    expression escape such as \<^verbatim>\<open>\d\<close>) the model stops with the marker \<open>OutsideModel\<close>,
    which is never caught and never taken for a result of the program.
\<close>

subsection \<open>Strings\<close>

abbreviation (input) BSL :: char where "BSL \<equiv> CHR 0x5C"
abbreviation (input) NL :: char where "NL \<equiv> CHR 0x0A"
abbreviation (input) CR :: char where "CR \<equiv> CHR 0x0D"

text \<open>\<^verbatim>\<open>s.startsWith(p)\<close> and \<^verbatim>\<open>s.endsWith(p)\<close>.\<close>

definition startsWith :: "string \<Rightarrow> string \<Rightarrow> bool" where
  "startsWith s p = (take (length p) s = p)"

definition endsWith :: "string \<Rightarrow> string \<Rightarrow> bool" where
  "endsWith s p = (length p \<le> length s \<and> drop (length s - length p) s = p)"

text \<open>\<^verbatim>\<open>s.slice(n)\<close> for \<open>n \<ge> 0\<close> and \<^verbatim>\<open>s.slice(0, -n)\<close> for \<open>n > 0\<close>.\<close>

definition sliceFrom :: "nat \<Rightarrow> string \<Rightarrow> string" where
  "sliceFrom n s = drop n s"

definition sliceDropLast :: "nat \<Rightarrow> string \<Rightarrow> string" where
  "sliceDropLast n s = take (length s - n) s"

text \<open>
  \<^verbatim>\<open>s.slice(0, n)\<close> for a number \<open>n\<close> of either sign: a negative end counts from the end
  of the string.
\<close>

definition sliceTo :: "int \<Rightarrow> string \<Rightarrow> string" where
  "sliceTo n s = (if n < 0 then take (nat (int (length s) + n)) s else take (nat n) s)"

text \<open>
  \<^verbatim>\<open>s.replace(/needle/g, repl)\<close> for a needle that is a literal, non-empty text: the
  occurrences are found from the left and do not overlap.
\<close>

fun replaceAll :: "string \<Rightarrow> string \<Rightarrow> string \<Rightarrow> string" where
  "replaceAll needle repl [] = []"
| "replaceAll needle repl (c # cs) =
     (if needle \<noteq> [] \<and> take (length needle) (c # cs) = needle
      then repl @ replaceAll needle repl (drop (length needle) (c # cs))
      else c # replaceAll needle repl cs)"

text \<open>\<^verbatim>\<open>s.split("\n")\<close> (never the empty list) and \<^verbatim>\<open>lines.join("\n")\<close>.\<close>

fun splitLines :: "string \<Rightarrow> string list" where
  "splitLines [] = [[]]"
| "splitLines (c # cs) =
     (if c = NL then [] # splitLines cs
      else (case splitLines cs of l # ls \<Rightarrow> (c # l) # ls | [] \<Rightarrow> [[c]]))"

fun joinLines :: "string list \<Rightarrow> string" where
  "joinLines [] = []"
| "joinLines [l] = l"
| "joinLines (l # m # ls) = l @ NL # joinLines (m # ls)"

text \<open>
  White space as \<^verbatim>\<open>trim()\<close> sees it: tab, line feed, vertical tab, form feed, carriage
  return, space and the no-break space.
\<close>

definition isSpace :: "char \<Rightarrow> bool" where
  "isSpace c = (c \<in> set [CHR 0x09, CHR 0x0A, CHR 0x0B, CHR 0x0C, CHR 0x0D, CHR 0x20, CHR 0xA0])"

definition trim :: "string \<Rightarrow> string" where
  "trim s = rev (dropWhile isSpace (rev (dropWhile isSpace s)))"

subsection \<open>Thrown values\<close>

text \<open>
  What the program reads of a thrown value is its \<^verbatim>\<open>status\<close> and its \<^verbatim>\<open>code\<close>, and in one
  place it hands the value to \<^verbatim>\<open>JSON.stringify\<close>, which throws a \<^verbatim>\<open>TypeError\<close> on an object
  that refers to itself: \<open>circular\<close>. Such is the error that \<^verbatim>\<open>execSync\<close> throws when the
  command could not be run or its output exceeded \<^verbatim>\<open>maxBuffer\<close>: the runtime assigns to it
  the fields of the result, among them \<^verbatim>\<open>error\<close>, the error itself. A thrown \<^verbatim>\<open>undefined\<close>
  has no properties, and reading one of it throws in turn.
\<close>

record errinfo =
  status :: "int option"
  code :: "string option"
  circular :: bool

datatype thrown = ThrownUndefined | Thrown errinfo | OutsideModel

definition plainError :: errinfo where
  "plainError = \<lparr>status = None, code = None, circular = False\<rparr>"

text \<open>The \<^verbatim>\<open>SyntaxError\<close> of \<^verbatim>\<open>new RegExp\<close> and the \<^verbatim>\<open>TypeError\<close> of a bad property read.\<close>

definition syntaxError :: thrown where
  "syntaxError = Thrown plainError"

definition typeError :: thrown where
  "typeError = Thrown plainError"

subsection \<open>Regular expressions: the fragment the hook builds\<close>

datatype regex =
    Empty
  | Chr char
  | AnyChar
  | CharClass bool "(char \<times> char) list"
  | AssertStart
  | AssertEnd
  | Star regex
  | Seq regex regex
  | Alt regex regex

text \<open>The characters \<^verbatim>\<open>^ $ \ . * + ? ( ) [ ] { } |\<close> of the pattern syntax.\<close>

definition syntaxChar :: "char \<Rightarrow> bool" where
  "syntaxChar c = (c \<in> set (''^$.*+?()[]{}|'' @ [BSL]))"

text \<open>Atoms to ranges: \<^verbatim>\<open>a-b\<close> is a range, and a range out of order is a syntax error.\<close>

fun classRanges :: "(char \<times> bool) list \<Rightarrow> thrown + (char \<times> char) list" where
  "classRanges [] = Inr []"
| "classRanges [(a, _)] = Inr [(a, a)]"
| "classRanges [(a, _), (b, _)] = Inr [(a, a), (b, b)]"
| "classRanges ((a, x) # (d, isDash) # (b, y) # rest) =
     (if isDash then
        (if (of_char b :: nat) < of_char a then Inl syntaxError
         else (case classRanges rest of Inl e \<Rightarrow> Inl e | Inr rs \<Rightarrow> Inr ((a, b) # rs)))
      else (case classRanges ((d, isDash) # (b, y) # rest) of
              Inl e \<Rightarrow> Inl e | Inr rs \<Rightarrow> Inr ((a, a) # rs)))"

text \<open>
  The parser keeps a stack of open groups. A frame holds the alternatives already closed
  by \<^verbatim>\<open>|\<close> and the terms of the current alternative, newest first; a term carries a
  flag: may a quantifier follow it.
\<close>

type_synonym frame = "regex list \<times> (regex \<times> bool) list"

definition seqOf :: "(regex \<times> bool) list \<Rightarrow> regex" where
  "seqOf ts = foldl (\<lambda>acc t. Seq (fst t) acc) Empty ts"

definition closeFrame :: "frame \<Rightarrow> regex" where
  "closeFrame f = foldl (\<lambda>acc a. Alt a acc) (seqOf (snd f)) (fst f)"

definition pushTerm :: "regex \<Rightarrow> bool \<Rightarrow> frame \<Rightarrow> frame" where
  "pushTerm r q f = (fst f, (r, q) # snd f)"

text \<open>
  Is the text after an opening brace a counted quantifier (\<^verbatim>\<open>{n}\<close>, \<^verbatim>\<open>{n,}\<close>,
  \<^verbatim>\<open>{n,m}\<close>)? If not, the brace is an ordinary character.
\<close>

definition isDigit :: "char \<Rightarrow> bool" where
  "isDigit c = (c \<in> set ''0123456789'')"

definition bracedQuantifier :: "string \<Rightarrow> bool" where
  "bracedQuantifier cs =
     (let ds = takeWhile isDigit cs; r = dropWhile isDigit cs
      in ds \<noteq> [] \<and>
         (case r of
            [] \<Rightarrow> False
          | x # r' \<Rightarrow>
              x = CHR ''}'' \<or>
              (x = CHR '','' \<and>
               (case dropWhile isDigit r' of [] \<Rightarrow> False | y # _ \<Rightarrow> y = CHR ''}''))))"

text \<open>
  \<^verbatim>\<open>new RegExp(src)\<close> without flags, read character by character. The first argument
  is the character class being read, if any: its negation flag and its atoms, newest
  first, each with a flag: is it an unescaped dash. Outside a class, \<^verbatim>\<open>] { }\<close> are
  ordinary characters unless the brace opens a counted quantifier. An escape of anything
  but a syntax character or a slash, a \<^verbatim>\<open>?\<close> and a counted quantifier are outside the
  model (the hook replaces every \<^verbatim>\<open>?\<close> of a pattern and escapes every brace).
\<close>

fun parseRegex ::
  "(bool \<times> (char \<times> bool) list) option \<Rightarrow> frame \<Rightarrow> frame list \<Rightarrow> string \<Rightarrow> thrown + regex"
where
  "parseRegex cls fr stack [] =
     (if cls = None \<and> stack = [] then Inr (closeFrame fr) else Inl syntaxError)"
| "parseRegex (Some (neg, acc)) fr stack (c # cs) =
     (if c = CHR '']'' then
        (case classRanges (rev acc) of
           Inl e \<Rightarrow> Inl e
         | Inr rs \<Rightarrow> parseRegex None (pushTerm (CharClass neg rs) True fr) stack cs)
      else if c = BSL then
        (case cs of
           [] \<Rightarrow> Inl syntaxError
         | x # cs' \<Rightarrow>
             if syntaxChar x \<or> x = CHR ''/''
             then parseRegex (Some (neg, (x, False) # acc)) fr stack cs'
             else Inl OutsideModel)
      else parseRegex (Some (neg, (c, c = CHR ''-'') # acc)) fr stack cs)"
| "parseRegex None fr stack (c # cs) =
     (if c = BSL then
        (case cs of
           [] \<Rightarrow> Inl syntaxError
         | x # cs' \<Rightarrow>
             if syntaxChar x \<or> x = CHR ''/''
             then parseRegex None (pushTerm (Chr x) True fr) stack cs'
             else Inl OutsideModel)
      else if c = CHR ''['' then
        (case cs of
           [] \<Rightarrow> Inl syntaxError
         | x # cs' \<Rightarrow>
             if x = CHR ''^'' then parseRegex (Some (True, [])) fr stack cs'
             else parseRegex (Some (False, [])) fr stack cs)
      else if c = CHR ''('' then
        (if take 1 cs = ''?'' then Inl OutsideModel
         else parseRegex None ([], []) (fr # stack) cs)
      else if c = CHR '')'' then
        (case stack of
           [] \<Rightarrow> Inl syntaxError
         | parent # stack' \<Rightarrow>
             parseRegex None (pushTerm (closeFrame fr) True parent) stack' cs)
      else if c = CHR ''|'' then parseRegex None (seqOf (snd fr) # fst fr, []) stack cs
      else if c = CHR ''^'' then parseRegex None (pushTerm AssertStart False fr) stack cs
      else if c = CHR ''$'' then parseRegex None (pushTerm AssertEnd False fr) stack cs
      else if c = CHR ''.'' then parseRegex None (pushTerm AnyChar True fr) stack cs
      else if c = CHR ''*'' \<or> c = CHR ''+'' then
        (case snd fr of
           [] \<Rightarrow> Inl syntaxError
         | (r, q) # ts \<Rightarrow>
             if q then
               parseRegex None
                 (fst fr, ((if c = CHR ''*'' then Star r else Seq r (Star r)), False) # ts)
                 stack cs
             else Inl syntaxError)
      else if c = CHR ''?'' then Inl OutsideModel
      else if c = CHR ''{'' \<and> bracedQuantifier cs then Inl OutsideModel
      else parseRegex None (pushTerm (Chr c) True fr) stack cs)"

definition RegExp :: "string \<Rightarrow> thrown + regex" where
  "RegExp src = parseRegex None ([], []) [] src"

subsection \<open>Matching\<close>

text \<open>
  A position in the subject is the text still ahead and a flag: is nothing behind.
  \<open>matchPrefix r p\<close> lists the positions at which a match of \<open>r\<close> that starts at \<open>p\<close> can
  end. A round of a star has to consume something, as in the runtime, which bounds the
  number of rounds by the length of the text ahead.
\<close>

type_synonym pos = "bool \<times> string"

definition lineTerminator :: "char \<Rightarrow> bool" where
  "lineTerminator c = (c = NL \<or> c = CR)"

definition inClass :: "bool \<Rightarrow> (char \<times> char) list \<Rightarrow> char \<Rightarrow> bool" where
  "inClass neg rs c =
     (list_ex (\<lambda>r. (of_char (fst r) :: nat) \<le> of_char c \<and> (of_char c :: nat) \<le> of_char (snd r)) rs
      \<noteq> neg)"

definition oneChar :: "(char \<Rightarrow> bool) \<Rightarrow> pos \<Rightarrow> pos list" where
  "oneChar ok p = (case snd p of [] \<Rightarrow> [] | x # xs \<Rightarrow> if ok x then [(False, xs)] else [])"

fun starLoop :: "(pos \<Rightarrow> pos list) \<Rightarrow> nat \<Rightarrow> pos \<Rightarrow> pos list" where
  "starLoop f 0 p = [p]"
| "starLoop f (Suc n) p =
     p # concat (map (starLoop f n) (filter (\<lambda>q. length (snd q) < length (snd p)) (f p)))"

primrec matchPrefix :: "regex \<Rightarrow> pos \<Rightarrow> pos list" where
  "matchPrefix Empty = (\<lambda>p. [p])"
| "matchPrefix (Chr c) = oneChar (\<lambda>x. x = c)"
| "matchPrefix AnyChar = oneChar (\<lambda>x. \<not> lineTerminator x)"
| "matchPrefix (CharClass neg rs) = oneChar (inClass neg rs)"
| "matchPrefix AssertStart = (\<lambda>p. if fst p then [p] else [])"
| "matchPrefix AssertEnd = (\<lambda>p. if snd p = [] then [p] else [])"
| "matchPrefix (Star r) = (\<lambda>p. starLoop (matchPrefix r) (length (snd p)) p)"
| "matchPrefix (Seq r1 r2) = (\<lambda>p. concat (map (matchPrefix r2) (matchPrefix r1 p)))"
| "matchPrefix (Alt r1 r2) = (\<lambda>p. matchPrefix r1 p @ matchPrefix r2 p)"

text \<open>\<^verbatim>\<open>regex.test(s)\<close> for a regex without the global flag: some start position matches.\<close>

fun testFrom :: "regex \<Rightarrow> bool \<Rightarrow> string \<Rightarrow> bool" where
  "testFrom r atStart [] = (matchPrefix r (atStart, []) \<noteq> [])"
| "testFrom r atStart (c # cs) =
     (matchPrefix r (atStart, c # cs) \<noteq> [] \<or> testFrom r False cs)"

definition regexTest :: "regex \<Rightarrow> string \<Rightarrow> bool" where
  "regexTest r s = testFrom r True s"

subsection \<open>patternToRegex, shouldIgnoreFile, filterDiff\<close>

text \<open>
  The first \<^verbatim>\<open>replace\<close> of \<open>patternToRegex\<close>: a backslash before each of
  \<^verbatim>\<open>. + ^ $ { } ( ) | [ ] \\<close>. The slash is not among them.
\<close>

definition escapedChar :: "char \<Rightarrow> bool" where
  "escapedChar c = (c \<in> set (''.+^${}()|[]'' @ [BSL]))"

definition escapeSpecials :: "string \<Rightarrow> string" where
  "escapeSpecials s = concat (map (\<lambda>c. if escapedChar c then [BSL, c] else [c]) s)"

text \<open>The chain of replacements, then the two anchoring steps with their slices.\<close>

definition regexBody :: "string \<Rightarrow> string" where
  "regexBody pattern =
     replaceAll ''{{DOUBLE_STAR}}'' ''.*''
       (replaceAll ''?'' ''[^/]''
         (replaceAll ''*'' ''[^/]*''
           (replaceAll ''**'' ''{{DOUBLE_STAR}}'' (escapeSpecials pattern))))"

definition regexSource :: "string \<Rightarrow> string" where
  "regexSource pattern =
     (let regexStr = regexBody pattern;
          regexStr = (if startsWith pattern ''/'' then ''^'' @ sliceFrom 2 regexStr
                      else ''(^|/)'' @ regexStr)
      in if endsWith pattern ''/'' then sliceDropLast 2 regexStr @ ''(/|$)''
         else regexStr @ ''($|/)'')"

record ignoreRule =
  regex :: regex
  negated :: bool

fun patternToRegex :: "string \<Rightarrow> thrown + ignoreRule" where
  "patternToRegex [] =
     (case RegExp (regexSource []) of
        Inl e \<Rightarrow> Inl e | Inr r \<Rightarrow> Inr \<lparr>regex = r, negated = False\<rparr>)"
| "patternToRegex (c # cs) =
     (if c = CHR ''!'' then
        (case patternToRegex cs of
           Inl e \<Rightarrow> Inl e | Inr inner \<Rightarrow> Inr \<lparr>regex = regex inner, negated = True\<rparr>)
      else
        (case RegExp (regexSource (c # cs)) of
           Inl e \<Rightarrow> Inl e | Inr r \<Rightarrow> Inr \<lparr>regex = r, negated = False\<rparr>))"

text \<open>
  \<open>shouldIgnoreFile\<close>: the loop over the patterns, with the flag \<open>ignored\<close> as its state.
  A pattern whose regular expression does not compile throws out of the loop.
\<close>

fun shouldIgnoreLoop :: "string \<Rightarrow> bool \<Rightarrow> string list \<Rightarrow> thrown + bool" where
  "shouldIgnoreLoop filePath ignored [] = Inr ignored"
| "shouldIgnoreLoop filePath ignored (pattern # patterns) =
     (case patternToRegex pattern of
        Inl e \<Rightarrow> Inl e
      | Inr rule \<Rightarrow>
          shouldIgnoreLoop filePath
            (if regexTest (regex rule) filePath then \<not> negated rule else ignored) patterns)"

definition shouldIgnoreFile :: "string \<Rightarrow> string list \<Rightarrow> thrown + bool" where
  "shouldIgnoreFile filePath patterns = shouldIgnoreLoop filePath False patterns"

text \<open>
  The header test of \<open>filterDiff\<close>, \<^verbatim>\<open>line.match(/^diff --git a\/(.+) b\/(.+)$/)\<close>, and
  its second group. The dot takes no line terminator, both groups are non-empty, and the
  first group is greedy: the path is what follows the last \<^verbatim>\<open> b/\<close> that leaves both
  groups non-empty.
\<close>

fun lastBSide :: "string \<Rightarrow> string option" where
  "lastBSide [] = None"
| "lastBSide (c # cs) =
     (case lastBSide cs of
        Some g \<Rightarrow> Some g
      | None \<Rightarrow> if take 3 cs = '' b/'' \<and> drop 3 cs \<noteq> [] then Some (drop 3 cs) else None)"

definition diffHeaderPath :: "string \<Rightarrow> string option" where
  "diffHeaderPath line =
     (if startsWith line ''diff --git a/'' \<and> \<not> list_ex lineTerminator (drop 13 line)
      then lastBSide (drop 13 line) else None)"

text \<open>
  The loop of \<open>filterDiff\<close> over the lines; its state is \<open>filteredLines\<close> and
  \<open>skipCurrentFile\<close> (\<open>currentFile\<close> and \<open>ignoredFiles\<close> only feed the debug log). Each
  round first updates \<open>skipCurrentFile\<close> if the line is a header, then keeps the line
  unless the flag is set.
\<close>

definition updateSkip :: "string list \<Rightarrow> bool \<Rightarrow> string \<Rightarrow> thrown + bool" where
  "updateSkip ignorePatterns skipCurrentFile line =
     (case diffHeaderPath line of
        Some currentFile \<Rightarrow> shouldIgnoreFile currentFile ignorePatterns
      | None \<Rightarrow> Inr skipCurrentFile)"

fun filterLoop :: "string list \<Rightarrow> string list \<Rightarrow> bool \<Rightarrow> string list \<Rightarrow> thrown + string list" where
  "filterLoop ignorePatterns filteredLines skipCurrentFile [] = Inr filteredLines"
| "filterLoop ignorePatterns filteredLines skipCurrentFile (line # lines) =
     (case updateSkip ignorePatterns skipCurrentFile line of
        Inl e \<Rightarrow> Inl e
      | Inr skip \<Rightarrow>
          filterLoop ignorePatterns
            (if skip then filteredLines else filteredLines @ [line]) skip lines)"

definition filterDiff :: "string \<Rightarrow> string list \<Rightarrow> thrown + string" where
  "filterDiff diff ignorePatterns =
     (if ignorePatterns = [] then Inr diff
      else (case filterLoop ignorePatterns [] False (splitLines diff) of
              Inl e \<Rightarrow> Inl e
            | Inr filteredLines \<Rightarrow> Inr (joinLines filteredLines)))"

subsection \<open>callWithRetry\<close>

text \<open>
  What a run does to the outside world is recorded as a list of events, in order.
  \<open>Invoke\<close> is one invocation of the operation wrapped by \<open>callWithRetry\<close> (in the hook:
  one request to the remote service), \<open>Sleep ms\<close> one \<^verbatim>\<open>await sleep(ms)\<close>, \<open>RunBuild\<close> the
  build command, \<open>WriteFile\<close> the write to the commit-message file, \<open>Print\<close> one call of
  \<^verbatim>\<open>console.log\<close>, \<^verbatim>\<open>console.error\<close> or \<^verbatim>\<open>console.warn\<close>. The fixed texts of the messages are
  constructors; what the program interpolates into them is their argument. The debug
  lines of \<open>logVerbose\<close> are left out.
\<close>

text \<open>
  A value that \<^verbatim>\<open>JSON.parse\<close> gives, or \<^verbatim>\<open>undefined\<close> for a property that is not there. The
  hook does three things with such a value: it tests it for truth, it converts it to a
  string, and, if it is a string, it uses its text. So a number is given by the text that
  converting it gives, which is \<^verbatim>\<open>0\<close> for the two zeros, the only numbers of JSON that are
  falsy; and an object or array by what converting it gives: \<open>Some\<close> text, which is
  \<^verbatim>\<open>[object Object]\<close> for a plain object and the joined elements for an array, or \<open>None\<close>
  when the conversion throws a \<^verbatim>\<open>TypeError\<close>, as for \<^verbatim>\<open>{"toString": 0}\<close>.
\<close>

datatype jsval =
    JUndefined
  | JNull
  | JBool bool
  | JNum string
  | JStr string
  | JObject "string option"

datatype message =
    SkipReview string
  | ApiKeyMissing
  | CurrentProvider string
  | NeedKey string
  | ProvidersAvailable
  | SkipAllowCommit
  | NoStagedChanges
  | AllIgnored
  | BuildRunning string
  | BuildPassed
  | BuildFailed
  | BypassHint
  | DiffTooLarge
  | DiffLimit
  | Reviewing
  | ReviewPassed
  | GeneratedMessage jsval
  | Suggestion jsval
  | ReviewFailed
  | Reason jsval
  | CannotConnect
  | InvalidApiKey
  | RateLimited
  | ReviewError

datatype event =
    Invoke
  | Sleep int
  | RunBuild string
  | WriteFile string
  | Print message

text \<open>
  The wrapped operation is a function of the state of the outside world: it returns or
  throws, and leaves a new state.
\<close>

type_synonym ('s, 'a) operation = "'s \<Rightarrow> (thrown + 'a) \<times> 's"

definition emit :: "event list \<Rightarrow> 'r \<times> 's \<times> event list \<Rightarrow> 'r \<times> 's \<times> event list" where
  "emit evs r = (fst r, fst (snd r), evs @ snd (snd r))"

text \<open>
  The \<^verbatim>\<open>for\<close> loop of \<open>callWithRetry\<close>, from \<open>attempt\<close> on, with \<open>lastError\<close> as it
  stands. Reading \<^verbatim>\<open>error.status\<close> of a thrown \<^verbatim>\<open>undefined\<close> throws a \<^verbatim>\<open>TypeError\<close> out
  of the handler. The numbers are integers (\<open>retryDelay\<close> and \<open>retries\<close> come from
  \<^verbatim>\<open>parseInt\<close>), and the products are exact.
\<close>

function retryLoop ::
  "('s, 'a) operation \<Rightarrow> int \<Rightarrow> int \<Rightarrow> int \<Rightarrow> thrown \<Rightarrow> 's \<Rightarrow> (thrown + 'a) \<times> 's \<times> event list"
where
  "retryLoop fn retries retryDelay attempt lastError s =
     (if attempt \<le> retries then
        (case fn s of
           (Inr v, s') \<Rightarrow> (Inr v, s', [Invoke])
         | (Inl error, s') \<Rightarrow>
             (case error of
                ThrownUndefined \<Rightarrow> (Inl typeError, s', [Invoke])
              | OutsideModel \<Rightarrow> (Inl OutsideModel, s', [Invoke])
              | Thrown e \<Rightarrow>
                  if status e = Some 401 \<or> status e = Some 403 then (Inl error, s', [Invoke])
                  else if status e = Some 429 then
                    emit [Invoke, Sleep (retryDelay * attempt * 2)]
                      (retryLoop fn retries retryDelay (attempt + 1) error s')
                  else if attempt < retries then
                    emit [Invoke, Sleep (retryDelay * attempt)]
                      (retryLoop fn retries retryDelay (attempt + 1) error s')
                  else emit [Invoke] (retryLoop fn retries retryDelay (attempt + 1) error s')))
      else (Inl lastError, s, []))"
  by pat_completeness auto
termination
  by (relation "measure (\<lambda>(fn, retries, retryDelay, attempt, lastError, s). nat (retries - attempt + 1))")
     auto

definition callWithRetry ::
  "('s, 'a) operation \<Rightarrow> int \<Rightarrow> int \<Rightarrow> 's \<Rightarrow> (thrown + 'a) \<times> 's \<times> event list" where
  "callWithRetry fn retries retryDelay s = retryLoop fn retries retryDelay 1 ThrownUndefined s"

definition invocations :: "event list \<Rightarrow> nat" where
  "invocations evs = length (filter (\<lambda>ev. ev = Invoke) evs)"

definition sleeps :: "event list \<Rightarrow> int list" where
  "sleeps evs = concat (map (\<lambda>ev. case ev of Sleep ms \<Rightarrow> [ms] | _ \<Rightarrow> []) evs)"

text \<open>
  The third class of failures in \<open>callWithRetry\<close>: an error object that the two status
  tests before it let pass.
\<close>

definition transient :: "errinfo \<Rightarrow> bool" where
  "transient e = (status e \<noteq> Some 401 \<and> status e \<noteq> Some 403 \<and> status e \<noteq> Some 429)"

text \<open>The events of the retry loop itself.\<close>

definition retryEvent :: "event \<Rightarrow> bool" where
  "retryEvent ev = (case ev of Invoke \<Rightarrow> True | Sleep ms \<Rightarrow> True | _ \<Rightarrow> False)"

subsection \<open>getAIConfig\<close>

record preset =
  baseURL :: string
  defaultModel :: string
  envKey :: string

definition openaiPreset :: preset where
  "openaiPreset =
     \<lparr>baseURL = ''https://api.openai.com/v1'', defaultModel = ''gpt-4o-mini'',
      envKey = ''OPENAI_API_KEY''\<rparr>"

definition deepseekPreset :: preset where
  "deepseekPreset =
     \<lparr>baseURL = ''https://api.deepseek.com'', defaultModel = ''deepseek-chat'',
      envKey = ''DEEPSEEK_API_KEY''\<rparr>"

definition AI_PROVIDERS :: "(string \<times> preset) list" where
  "AI_PROVIDERS = [(''openai'', openaiPreset), (''deepseek'', deepseekPreset)]"

text \<open>
  \<^verbatim>\<open>AI_PROVIDERS[key]\<close> is a property read of an object literal: an own property if there is
  one, else what the object inherits from \<^verbatim>\<open>Object.prototype\<close> under that name, else
  \<^verbatim>\<open>undefined\<close>. Every inherited member is an object or a function, so it is truthy, and
  it has none of the properties \<^verbatim>\<open>baseURL\<close>, \<^verbatim>\<open>defaultModel\<close>, \<^verbatim>\<open>envKey\<close>.
\<close>

definition objectPrototypeKeys :: "string list" where
  "objectPrototypeKeys =
     [''constructor'', ''__proto__'', ''hasOwnProperty'', ''isPrototypeOf'',
      ''propertyIsEnumerable'', ''toLocaleString'', ''toString'', ''valueOf'',
      ''__defineGetter__'', ''__defineSetter__'', ''__lookupGetter__'', ''__lookupSetter__'']"

datatype member = Own preset | Inherited

definition getProvider :: "string \<Rightarrow> member option" where
  "getProvider key =
     (case map_of AI_PROVIDERS key of
        Some p \<Rightarrow> Some (Own p)
      | None \<Rightarrow> if key \<in> set objectPrototypeKeys then Some Inherited else None)"

definition readField :: "(preset \<Rightarrow> string) \<Rightarrow> member \<Rightarrow> string option" where
  "readField f m = (case m of Own p \<Rightarrow> Some (f p) | Inherited \<Rightarrow> None)"

text \<open>
  \<^verbatim>\<open>a || b\<close> on values that are strings or \<^verbatim>\<open>undefined\<close>: the empty string is falsy.
\<close>

definition orElse :: "string option \<Rightarrow> string option \<Rightarrow> string option" where
  "orElse a b = (case a of Some x \<Rightarrow> if x = [] then b else Some x | None \<Rightarrow> b)"

text \<open>\<^verbatim>\<open>toLowerCase\<close> on code units below 256.\<close>

definition lowerChar :: "char \<Rightarrow> char" where
  "lowerChar c =
     (let n = (of_char c :: nat)
      in if (65 \<le> n \<and> n \<le> 90) \<or> (192 \<le> n \<and> n \<le> 222 \<and> n \<noteq> 215) then char_of (n + 32) else c)"

definition toLowerCase :: "string \<Rightarrow> string" where
  "toLowerCase s = map lowerChar s"

record aiConfig =
  provider :: string
  apiKey :: "string option"
  baseURL :: "string option"
  model :: "string option"

text \<open>
  The environment is \<^verbatim>\<open>process.env\<close> after the \<^verbatim>\<open>.env\<close> files are loaded. A key that is
  \<^verbatim>\<open>undefined\<close> reads the variable named \<^verbatim>\<open>undefined\<close>.
\<close>

definition getAIConfig :: "(string \<Rightarrow> string option) \<Rightarrow> aiConfig" where
  "getAIConfig environment =
     (let name = toLowerCase (case environment ''AI_PROVIDER'' of
                                Some p \<Rightarrow> if p = [] then ''openai'' else p
                              | None \<Rightarrow> ''openai'');
          entry = (case getProvider name of Some m \<Rightarrow> m | None \<Rightarrow> Own openaiPreset);
          key = orElse (environment (case readField envKey entry of
                                       Some k \<Rightarrow> k | None \<Rightarrow> ''undefined''))
                       (environment ''OPENAI_API_KEY'');
          url = orElse (environment ''OPENAI_BASE_URL'') (readField preset.baseURL entry);
          mdl = orElse (environment ''OPENAI_MODEL'') (readField defaultModel entry)
      in \<lparr>provider = name, apiKey = key, baseURL = url, model = mdl\<rparr>)"

subsection \<open>The hook\<close>

text \<open>The fields of \<^verbatim>\<open>CONFIG\<close> that the control flow reads.\<close>

record config =
  maxDiffSize :: int
  skipBuild :: bool
  buildCommand :: string
  maxRetries :: int
  retryDelay :: int

text \<open>
  The parsed response, \<^verbatim>\<open>result\<close>: the three properties the hook reads of it, each
  \<^verbatim>\<open>undefined\<close> when the value has no such property. A \<^verbatim>\<open>null\<close> result is \<open>None\<close>. A
  completion is represented by what \<^verbatim>\<open>JSON.parse(completion.choices[0].message.content)\<close>
  does on it: it throws an error object or gives the result.
\<close>

record verdict =
  is_passed :: jsval
  reason :: jsval
  message :: jsval

type_synonym completion = "errinfo + verdict option"

definition truthy :: "jsval \<Rightarrow> bool" where
  "truthy v =
     (case v of
        JUndefined \<Rightarrow> False | JNull \<Rightarrow> False | JBool b \<Rightarrow> b | JNum n \<Rightarrow> n \<noteq> ''0''
      | JStr s \<Rightarrow> s \<noteq> [] | JObject conversion \<Rightarrow> True)"

text \<open>
  The conversion of a value to a string, by a template literal or by \<^verbatim>\<open>+\<close> with a string:
  \<open>None\<close> when it throws a \<^verbatim>\<open>TypeError\<close>. On an object that \<^verbatim>\<open>JSON.parse\<close> gave the two
  agree: its \<^verbatim>\<open>valueOf\<close>, if callable, is the inherited one and returns the object, so
  that in either order the outcome is that of \<^verbatim>\<open>toString\<close>.
\<close>

definition ToString :: "jsval \<Rightarrow> string option" where
  "ToString v =
     (case v of
        JUndefined \<Rightarrow> Some ''undefined'' | JNull \<Rightarrow> Some ''null''
      | JBool b \<Rightarrow> Some (if b then ''true'' else ''false'') | JNum n \<Rightarrow> Some n
      | JStr s \<Rightarrow> Some s | JObject conversion \<Rightarrow> conversion)"

text \<open>
  What a run is given. \<open>ignoreFiles\<close> are the contents of the candidate
  \<^verbatim>\<open>.reviewignore\<close> files, in the order tried, \<open>None\<close> for a file that does not exist (one
  that exists is taken to be readable). \<open>stagedDiff\<close> is what \<^verbatim>\<open>git diff --cached\<close> gives:
  its output, or the error that \<^verbatim>\<open>execSync\<close> throws, which has the exit status of the
  command if it ran and failed, and is circular with a code such as \<^verbatim>\<open>ENOBUFS\<close> if it
  could not be run to its end. \<open>buildSucceeds\<close> is whether the build command returns
  normally, \<open>createCompletion\<close> the request to the service for a truncated diff.
  \<open>adviceHeading\<close> stands for the heading line \<^verbatim>\<open># --- AI Review ... ---\<close> of the advice
  block, whose text has characters above 255. \<open>writeError\<close> is what the file system does
  with a write to the commit-message file: \<open>None\<close> when it takes it, or the error thrown
  (no such file given, no permission).
\<close>

record 's inputs =
  commitSource :: "string option"
  env :: "string \<Rightarrow> string option"
  CONFIG :: config
  ignoreFiles :: "string option list"
  stagedDiff :: "errinfo + string"
  buildSucceeds :: bool
  adviceHeading :: string
  writeError :: "errinfo option"
  createCompletion :: "string \<Rightarrow> ('s, completion) operation"

text \<open>
  How the process ends: \<^verbatim>\<open>process.exit(n)\<close>; a rejection of \<open>runAIReview\<close> that nothing
  handles (its exit code is the runtime's); or outside the model.
\<close>

datatype ending = Exit int | UnhandledRejection | NotModelled

type_synonym outcome = "ending \<times> event list"

fun loadReviewIgnore :: "string option list \<Rightarrow> string list" where
  "loadReviewIgnore [] = []"
| "loadReviewIgnore (None # candidates) = loadReviewIgnore candidates"
| "loadReviewIgnore (Some content # candidates) =
     filter (\<lambda>trimmed. trimmed \<noteq> [] \<and> \<not> startsWith trimmed ''#'') (map trim (splitLines content))"

text \<open>
  The \<^verbatim>\<open>catch\<close> block of \<open>runAIReview\<close>, entered with the events so far. It reads
  \<^verbatim>\<open>error.code\<close> first, which throws if the caught value is \<^verbatim>\<open>undefined\<close>. Its last branch
  prints the error and then evaluates \<^verbatim>\<open>JSON.stringify(error, null, 2)\<close> as the argument of
  \<open>logVerbose\<close>, whether or not the debug lines are shown; on a circular error that throws
  out of the block. A throw out of the block rejects the promise of \<open>runAIReview\<close>, which
  nothing handles.
\<close>

definition catchBlock :: "thrown \<Rightarrow> event list \<Rightarrow> outcome" where
  "catchBlock error log =
     (case error of
        OutsideModel \<Rightarrow> (NotModelled, log)
      | ThrownUndefined \<Rightarrow> (UnhandledRejection, log)
      | Thrown e \<Rightarrow>
          if code e = Some ''ECONNREFUSED'' \<or> code e = Some ''ETIMEDOUT''
          then (Exit 0, log @ [Print CannotConnect, Print SkipAllowCommit])
          else if status e = Some 401 then (Exit 0, log @ [Print InvalidApiKey, Print SkipAllowCommit])
          else if status e = Some 429 then (Exit 0, log @ [Print RateLimited, Print SkipAllowCommit])
          else if circular e then (UnhandledRejection, log @ [Print ReviewError])
          else (Exit 0, log @ [Print ReviewError, Print SkipAllowCommit]))"

text \<open>
  The condition \<^verbatim>\<open>result.reason && result.reason.trim()\<close>. A truthy reason that is not a
  string (a number, \<^verbatim>\<open>true\<close>, an object or array from \<^verbatim>\<open>JSON.parse\<close>) has no function
  \<^verbatim>\<open>trim\<close> to call.
\<close>

definition adviceGiven :: "jsval \<Rightarrow> thrown + bool" where
  "adviceGiven r =
     (if truthy r then (case r of JStr text \<Rightarrow> Inr (trim text \<noteq> []) | _ \<Rightarrow> Inl typeError)
      else Inr False)"

definition commentLines :: "string \<Rightarrow> string" where
  "commentLines r = joinLines (map (\<lambda>line. ''# '' @ line) (splitLines r))"

text \<open>
  The value of \<^verbatim>\<open>commitMessage\<close> when it is written: \<^verbatim>\<open>result.message\<close> as it is, of
  whatever type, or, under the condition above, that value converted to a string by
  \<^verbatim>\<open>+=\<close> with the heading and the commented reason after it.
\<close>

definition commitMessage :: "string \<Rightarrow> verdict \<Rightarrow> thrown + jsval" where
  "commitMessage heading result =
     (case adviceGiven (reason result) of
        Inl t \<Rightarrow> Inl t
      | Inr advice \<Rightarrow>
          if advice then
            (case ToString (message result) of
               None \<Rightarrow> Inl typeError
             | Some m \<Rightarrow>
                 Inr (JStr (m @ [NL, NL] @ heading @ [NL] @
                            commentLines (case reason result of JStr text \<Rightarrow> text | _ \<Rightarrow> []))))
          else Inr (message result))"

text \<open>
  \<^verbatim>\<open>fs.writeFileSync(commitMsgFile, data)\<close>: it checks first that the data is a string (the
  other types it takes, buffers and views, \<^verbatim>\<open>JSON.parse\<close> does not give) and throws a
  \<^verbatim>\<open>TypeError\<close> with the code \<^verbatim>\<open>ERR_INVALID_ARG_TYPE\<close> otherwise, as the runtime has done since
  version 14, the first that runs the script (it uses \<^verbatim>\<open>?.\<close>).
\<close>

definition invalidArgType :: thrown where
  "invalidArgType = Thrown \<lparr>status = None, code = Some ''ERR_INVALID_ARG_TYPE'', circular = False\<rparr>"

definition writeFileSync :: "errinfo option \<Rightarrow> jsval \<Rightarrow> thrown + event" where
  "writeFileSync failure data =
     (case data of
        JStr content \<Rightarrow> (case failure of Some e \<Rightarrow> Inl (Thrown e) | None \<Rightarrow> Inr (WriteFile content))
      | _ \<Rightarrow> Inl invalidArgType)"

text \<open>
  Step 5 of \<open>runAIReview\<close>, from \<^verbatim>\<open>JSON.parse\<close> on. The result is either a value thrown
  inside the \<^verbatim>\<open>try\<close> block, with the events so far, or the end of the process. The
  lines printed interpolate \<^verbatim>\<open>result.message\<close> and \<^verbatim>\<open>result.reason\<close>, which converts them
  to strings.
\<close>

definition handleResult ::
  "string \<Rightarrow> errinfo option \<Rightarrow> completion \<Rightarrow> event list \<Rightarrow> (thrown \<times> event list) + outcome" where
  "handleResult heading failure completion log =
     (case completion of
        Inl e \<Rightarrow> Inl (Thrown e, log)
      | Inr None \<Rightarrow> Inl (typeError, log)
      | Inr (Some result) \<Rightarrow>
          if truthy (is_passed result) then
            (case commitMessage heading result of
               Inl t \<Rightarrow> Inl (t, log)
             | Inr data \<Rightarrow>
                 (case writeFileSync failure data of
                    Inl t \<Rightarrow> Inl (t, log)
                  | Inr written \<Rightarrow>
                      (case ToString (message result) of
                         None \<Rightarrow> Inl (typeError, log @ [written, Print ReviewPassed])
                       | Some m \<Rightarrow>
                           (case adviceGiven (reason result) of
                              Inl t \<Rightarrow>
                                Inl (t, log @ [written, Print ReviewPassed,
                                               Print (GeneratedMessage (message result))])
                            | Inr advice \<Rightarrow>
                                Inr (Exit 0,
                                     log @ [written, Print ReviewPassed,
                                            Print (GeneratedMessage (message result))] @
                                     (if advice then [Print (Suggestion (reason result))] else []))))))
          else
            (case ToString (reason result) of
               None \<Rightarrow> Inl (typeError, log @ [Print ReviewFailed])
             | Some r \<Rightarrow>
                 Inr (Exit 1,
                      log @ [Print ReviewFailed, Print (Reason (reason result)), Print BypassHint])))"

text \<open>
  Steps 0 to 3 of the \<^verbatim>\<open>try\<close> block of \<open>runAIReview\<close>: the ignore patterns, the staged
  diff, the filter, the build check and the truncation. They throw, or end the process,
  or give \<open>truncatedDiff\<close> with the events so far.
\<close>

definition prepareDiff :: "'s inputs \<Rightarrow> (thrown \<times> event list) + (outcome + string \<times> event list)" where
  "prepareDiff inp =
     (let ignorePatterns = loadReviewIgnore (ignoreFiles inp) in
      case stagedDiff inp of
        Inl e \<Rightarrow> Inl (Thrown e, [])
      | Inr diff \<Rightarrow>
          if trim diff = [] then Inr (Inl (Exit 0, [Print NoStagedChanges]))
          else
            (case filterDiff diff ignorePatterns of
               Inl e \<Rightarrow> Inl (e, [])
             | Inr diff \<Rightarrow>
                 if trim diff = [] then Inr (Inl (Exit 0, [Print AllIgnored]))
                 else if \<not> skipBuild (CONFIG inp) \<and> \<not> buildSucceeds inp then
                   Inr (Inl (Exit 1,
                             [Print (BuildRunning (buildCommand (CONFIG inp))),
                              RunBuild (buildCommand (CONFIG inp)), Print BuildFailed,
                              Print BypassHint]))
                 else
                   Inr (Inr (sliceTo (maxDiffSize (CONFIG inp)) diff,
                             (if skipBuild (CONFIG inp) then []
                              else [Print (BuildRunning (buildCommand (CONFIG inp))),
                                    RunBuild (buildCommand (CONFIG inp)), Print BuildPassed]) @
                             (if int (length diff) > maxDiffSize (CONFIG inp)
                              then [Print DiffTooLarge, Print DiffLimit] else []) @
                             [Print Reviewing]))))"

text \<open>
  The \<^verbatim>\<open>try\<close> block of \<open>runAIReview\<close>: steps 0 to 3, then step 4, the request under
  \<open>callWithRetry\<close>, and step 5.
\<close>

definition tryBlock :: "'s inputs \<Rightarrow> 's \<Rightarrow> (thrown \<times> event list) + outcome" where
  "tryBlock inp s =
     (case prepareDiff inp of
        Inl t \<Rightarrow> Inl t
      | Inr (Inl out) \<Rightarrow> Inr out
      | Inr (Inr (truncatedDiff, log)) \<Rightarrow>
          (case callWithRetry (createCompletion inp truncatedDiff)
                  (maxRetries (CONFIG inp)) (retryDelay (CONFIG inp)) s of
             (Inl e, s', evs) \<Rightarrow> Inl (e, log @ evs)
           | (Inr completion, s', evs) \<Rightarrow>
               handleResult (adviceHeading inp) (writeError inp) completion (log @ evs)))"

definition runAIReview :: "'s inputs \<Rightarrow> 's \<Rightarrow> outcome" where
  "runAIReview inp s =
     (case tryBlock inp s of
        Inl (error, log) \<Rightarrow> catchBlock error log
      | Inr out \<Rightarrow> out)"

text \<open>
  The module from the gate on: the check of \<open>commitSource\<close>, the check of the API key,
  then \<open>runAIReview\<close>. Loading the \<^verbatim>\<open>.env\<close> files and building the client are taken to
  succeed.
\<close>

definition apiKeyCheck :: "'s inputs \<Rightarrow> 's \<Rightarrow> outcome" where
  "apiKeyCheck inp s =
     (let aiConfig = getAIConfig (env inp) in
      if (case apiKey aiConfig of Some k \<Rightarrow> k = [] | None \<Rightarrow> True) then
        (Exit 0,
         [Print ApiKeyMissing, Print (CurrentProvider (provider aiConfig)),
          Print (NeedKey (case getProvider (provider aiConfig) of
                            Some (Own p) \<Rightarrow> if envKey p = [] then ''OPENAI_API_KEY'' else envKey p
                          | _ \<Rightarrow> ''OPENAI_API_KEY'')),
          Print ProvidersAvailable, Print SkipAllowCommit])
      else runAIReview inp s)"

definition skippedSources :: "string list" where
  "skippedSources = [''message'', ''merge'', ''squash'', ''commit'']"

definition hook :: "'s inputs \<Rightarrow> 's \<Rightarrow> outcome" where
  "hook inp s =
     (case commitSource inp of
        Some src \<Rightarrow>
          if src \<in> set skippedSources then (Exit 0, [Print (SkipReview src)])
          else apiKeyCheck inp s
      | None \<Rightarrow> apiKeyCheck inp s)"

subsection \<open>Example runs\<close>

text \<open>
  A run with the default configuration: no commit source, an API key for the default
  provider, no \<^verbatim>\<open>.reviewignore\<close>, one staged file, a build that passes. \<open>respond c\<close> is a
  service that answers every request with the completion \<open>c\<close>, \<open>refuse e\<close> one that
  throws \<open>e\<close> at every request; the state of the outside world is trivial.
\<close>

definition respond :: "completion \<Rightarrow> string \<Rightarrow> (unit, completion) operation" where
  "respond c truncatedDiff s = (Inr c, s)"


definition passing :: completion where
  "passing =
     Inr (Some \<lparr>is_passed = JBool True, reason = JStr [], message = JStr ''feat(auth): add token check''\<rparr>)"

definition exampleRun :: "unit inputs" where
  "exampleRun =
     \<lparr>commitSource = None,
      env = map_of [(''OPENAI_API_KEY'', ''sk-test'')],
      CONFIG = \<lparr>maxDiffSize = 15000, skipBuild = False, buildCommand = ''npm run build'',
                maxRetries = 3, retryDelay = 1000\<rparr>,
      ignoreFiles = [None, None],
      stagedDiff = Inr (''diff --git a/src/auth.js b/src/auth.js'' @ [NL] @ ''+check(token)'' @ [NL]),
      buildSucceeds = True,
      adviceHeading = ''# --- AI Review ---'',
      writeError = None,
      createCompletion = respond passing\<rparr>"

text \<open>A staged change that lies in \<^verbatim>\<open>dist/\<close> and nowhere else.\<close>

definition distDiff :: string where
  "distDiff = ''diff --git a/dist/bundle.js b/dist/bundle.js'' @ [NL] @ ''+var a = 1;'' @ [NL]"

section \<open>Properties\<close>

subsection \<open>Lines\<close>

lemma splitLines_nonempty: "splitLines s \<noteq> []"
  by (induction s) (auto split: list.splits)

lemma splitLines_no_newline: "l \<in> set (splitLines s) \<Longrightarrow> NL \<notin> set l"
  by (induction s arbitrary: l) (auto split: list.splits if_splits)

lemma splitLines_line: "NL \<notin> set l \<Longrightarrow> splitLines l = [l]"
  by (induction l) auto

lemma splitLines_append: "NL \<notin> set l \<Longrightarrow> splitLines (l @ NL # s) = l # splitLines s"
  by (induction l) auto

lemma splitLines_joinLines:
  "ls \<noteq> [] \<Longrightarrow> (\<And>l. l \<in> set ls \<Longrightarrow> NL \<notin> set l) \<Longrightarrow> splitLines (joinLines ls) = ls"
proof (induction ls rule: joinLines.induct)
  case 1
  then show ?case by simp
next
  case (2 l)
  then show ?case by (simp add: splitLines_line)
next
  case (3 l m ls)
  then show ?case by (simp add: splitLines_append)
qed

subsection \<open>The filter loop\<close>

text \<open>The lines already kept play no part in what the loop does next.\<close>

lemma filterLoop_acc:
  "filterLoop P acc sk ls =
     (case filterLoop P [] sk ls of Inl e \<Rightarrow> Inl e | Inr k \<Rightarrow> Inr (acc @ k))"
proof (induction ls arbitrary: acc sk)
  case Nil
  then show ?case by simp
next
  case (Cons l ls)
  show ?case
  proof (cases "updateSkip P sk l")
    case (Inl e)
    then show ?thesis by simp
  next
    case (Inr skip)
    show ?thesis
    proof (cases skip)
      case True
      with Inr show ?thesis using Cons.IH[of acc True] by simp
    next
      case False
      with Inr show ?thesis
        using Cons.IH[of "acc @ [l]" False] Cons.IH[of "[l]" False]
        by (simp split: sum.splits)
    qed
  qed
qed

lemma filterLoop_subset: "filterLoop P [] sk ls = Inr k \<Longrightarrow> set k \<subseteq> set ls"
proof (induction ls arbitrary: sk k)
  case Nil
  then show ?case by simp
next
  case (Cons l ls)
  from Cons.prems obtain skip where u: "updateSkip P sk l = Inr skip"
    by (cases "updateSkip P sk l") auto
  show ?case
  proof (cases skip)
    case True
    with u Cons.prems have "filterLoop P [] True ls = Inr k" by simp
    from Cons.IH[OF this] show ?thesis by auto
  next
    case False
    with u Cons.prems have "filterLoop P [l] False ls = Inr k" by simp
    then obtain k' where k': "filterLoop P [] False ls = Inr k'" "k = l # k'"
      by (subst (asm) filterLoop_acc) (auto split: sum.splits)
    from Cons.IH[OF k'(1)] k'(2) show ?thesis by auto
  qed
qed

text \<open>A line that was kept is kept again when the flag is clear before it.\<close>

lemma updateSkip_kept: "updateSkip P sk l = Inr False \<Longrightarrow> updateSkip P False l = Inr False"
  by (auto simp: updateSkip_def split: option.splits)

text \<open>
  Whatever the loop keeps, it keeps in full when run over it again: a kept header clears
  the flag anew, and a kept line that is no header was read with the flag clear.
\<close>

lemma filterLoop_stable: "filterLoop P [] sk ls = Inr k \<Longrightarrow> filterLoop P [] False k = Inr k"
proof (induction ls arbitrary: sk k)
  case Nil
  then show ?case by simp
next
  case (Cons l ls)
  from Cons.prems obtain skip where u: "updateSkip P sk l = Inr skip"
    by (cases "updateSkip P sk l") auto
  show ?case
  proof (cases skip)
    case True
    with u Cons.prems have "filterLoop P [] True ls = Inr k" by simp
    from Cons.IH[OF this] show ?thesis .
  next
    case False
    with u Cons.prems have "filterLoop P [l] False ls = Inr k" by simp
    then obtain k' where k': "filterLoop P [] False ls = Inr k'" "k = l # k'"
      by (subst (asm) filterLoop_acc) (auto split: sum.splits)
    from Cons.IH[OF k'(1)] have st: "filterLoop P [] False k' = Inr k'" .
    from u False have "updateSkip P False l = Inr False" by (simp add: updateSkip_kept)
    then have "filterLoop P [] False (l # k') = filterLoop P [l] False k'" by simp
    also have "\<dots> = Inr (l # k')" by (subst filterLoop_acc) (simp add: st)
    finally show ?thesis by (simp add: k'(2))
  qed
qed

lemma filterLoop_empty_line: "filterLoop P [] False [[]] = Inr [[]]"
  by (simp add: updateSkip_def diffHeaderPath_def startsWith_def)

text \<open>
  \<^bold>\<open>Claim C5.\<close> The changeset filter is idempotent: filtering the output of
  \<open>filterDiff\<close> again with the same patterns gives that output, for every diff text and
  every pattern list. Where the first run throws (a pattern that does not compile) there
  is no output to filter, and the composition throws the same value. The proof rests on
  the loop alone: it uses of \<open>shouldIgnoreFile\<close> and of the header test only that they are
  functions of the line and the patterns, and that the empty line is no header.
\<close>

theorem filterDiff_idempotent:
  "(case filterDiff d R of Inl e \<Rightarrow> Inl e | Inr d' \<Rightarrow> filterDiff d' R) = filterDiff d R"
proof (cases "R = []")
  case True
  then show ?thesis by (simp add: filterDiff_def)
next
  case False
  show ?thesis
  proof (cases "filterLoop R [] False (splitLines d)")
    case (Inl e)
    with False show ?thesis by (simp add: filterDiff_def)
  next
    case (Inr k)
    have again:
      "filterLoop R [] False (splitLines (joinLines k)) = Inr (splitLines (joinLines k))
       \<and> joinLines (splitLines (joinLines k)) = joinLines k"
    proof (cases "k = []")
      case True
      then show ?thesis using filterLoop_empty_line[of R] by (simp del: filterLoop.simps)
    next
      case nonempty: False
      have "\<And>l. l \<in> set k \<Longrightarrow> NL \<notin> set l"
        using filterLoop_subset[OF Inr] splitLines_no_newline by blast
      with nonempty have "splitLines (joinLines k) = k" by (rule splitLines_joinLines)
      with filterLoop_stable[OF Inr] show ?thesis by simp
    qed
    with False Inr show ?thesis by (simp add: filterDiff_def)
  qed
qed

subsection \<open>Rule evaluation\<close>

lemma shouldIgnoreLoop_last:
  "list_all2 (\<lambda>p r. patternToRegex p = Inr r) patterns rules \<Longrightarrow>
   shouldIgnoreLoop path ig patterns =
     Inr (case filter (\<lambda>r. regexTest (regex r) path) rules of
            [] \<Rightarrow> ig | m # ms \<Rightarrow> \<not> negated (last (m # ms)))"
proof (induction patterns rules arbitrary: ig rule: list_all2_induct)
  case Nil
  then show ?case by simp
next
  case (Cons p ps r rs)
  then show ?case by (simp split: list.splits)
qed

text \<open>The first pattern that does not compile throws out of the loop.\<close>

lemma shouldIgnoreLoop_throws:
  "list_all2 (\<lambda>p r. patternToRegex p = Inr r) ps rs \<Longrightarrow> patternToRegex p = Inl e \<Longrightarrow>
   shouldIgnoreLoop path ig (ps @ p # qs) = Inl e"
  by (induction ps rs arbitrary: ig rule: list_all2_induct) simp_all

text \<open>
  \<^bold>\<open>Claim C4.\<close> Rule evaluation is last-match-wins. For every path and every list of
  patterns with their compiled rules, in order, \<open>shouldIgnoreFile\<close> returns the negation
  of \<open>negated\<close> of the last rule whose regular expression accepts the path, and
  \<open>False\<close> when no rule accepts it. Under \<^verbatim>\<open>["*.md", "!README.md"]\<close> the file
  \<^verbatim>\<open>README.md\<close> is not ignored and \<^verbatim>\<open>CHANGELOG.md\<close> is; with the two rules
  reversed \<^verbatim>\<open>README.md\<close> is ignored.
\<close>

theorem shouldIgnoreFile_last_match_wins:
  "(list_all2 (\<lambda>p r. patternToRegex p = Inr r) patterns rules \<longrightarrow>
      shouldIgnoreFile path patterns =
        Inr (case filter (\<lambda>r. regexTest (regex r) path) rules of
               [] \<Rightarrow> False | m # ms \<Rightarrow> \<not> negated (last (m # ms))))
   \<and> shouldIgnoreFile ''README.md'' [''*.md'', ''!README.md''] = Inr False
   \<and> shouldIgnoreFile ''CHANGELOG.md'' [''*.md'', ''!README.md''] = Inr True
   \<and> shouldIgnoreFile ''README.md'' [''!README.md'', ''*.md''] = Inr True"
proof (intro conjI impI)
  assume "list_all2 (\<lambda>p r. patternToRegex p = Inr r) patterns rules"
  then show "shouldIgnoreFile path patterns =
        Inr (case filter (\<lambda>r. regexTest (regex r) path) rules of
               [] \<Rightarrow> False | m # ms \<Rightarrow> \<not> negated (last (m # ms)))"
    unfolding shouldIgnoreFile_def by (rule shouldIgnoreLoop_last)
next
  show "shouldIgnoreFile ''README.md'' [''*.md'', ''!README.md''] = Inr False" by code_simp
next
  show "shouldIgnoreFile ''CHANGELOG.md'' [''*.md'', ''!README.md''] = Inr True" by code_simp
next
  show "shouldIgnoreFile ''README.md'' [''!README.md'', ''*.md''] = Inr True" by code_simp
qed

text \<open>
  The general statement at the two rules of the example: both patterns compile, and the
  last rule that accepts \<^verbatim>\<open>README.md\<close> is the negated one.
\<close>

theorem shouldIgnoreFile_last_match_wins_witness:
  "list_all2 (\<lambda>p r. patternToRegex p = Inr r) [''*.md'', ''!README.md'']
     (map (projr \<circ> patternToRegex) [''*.md'', ''!README.md''])
   \<and> shouldIgnoreFile ''README.md'' [''*.md'', ''!README.md''] =
       Inr (case filter (\<lambda>r. regexTest (regex r) ''README.md'')
                  (map (projr \<circ> patternToRegex) [''*.md'', ''!README.md'']) of
              [] \<Rightarrow> False | m # ms \<Rightarrow> \<not> negated (last (m # ms)))
   \<and> map negated (filter (\<lambda>r. regexTest (regex r) ''README.md'')
                  (map (projr \<circ> patternToRegex) [''*.md'', ''!README.md''])) = [False, True]"
proof -
  have compiled:
    "list_all2 (\<lambda>p r. patternToRegex p = Inr r) [''*.md'', ''!README.md'']
       (map (projr \<circ> patternToRegex) [''*.md'', ''!README.md''])"
    by code_simp
  have matching:
    "map negated (filter (\<lambda>r. regexTest (regex r) ''README.md'')
                  (map (projr \<circ> patternToRegex) [''*.md'', ''!README.md''])) = [False, True]"
    by code_simp
  from shouldIgnoreFile_last_match_wins[THEN conjunct1, rule_format, OF compiled]
  show ?thesis using compiled matching by blast
qed

subsection \<open>The retry loop\<close>

declare retryLoop.simps [simp del]

lemma invocations_simps:
  "invocations [] = 0"
  "invocations (Invoke # evs) = Suc (invocations evs)"
  "invocations (Sleep ms # evs) = invocations evs"
  "invocations (xs @ ys) = invocations xs + invocations ys"
  by (simp_all add: invocations_def)

lemma emit_simps:
  "fst (emit evs r) = fst r"
  "fst (snd (emit evs r)) = fst (snd r)"
  "snd (snd (emit evs r)) = evs @ snd (snd r)"
  by (simp_all add: emit_def)

text \<open>One round of the loop, by what the operation does.\<close>

lemma retryLoop_done:
  "\<not> attempt \<le> retries \<Longrightarrow> retryLoop fn retries d attempt le s = (Inl le, s, [])"
  by (subst retryLoop.simps) simp

lemma retryLoop_success:
  "attempt \<le> retries \<Longrightarrow> fn s = (Inr v, s') \<Longrightarrow>
   retryLoop fn retries d attempt le s = (Inr v, s', [Invoke])"
  by (subst retryLoop.simps) simp

lemma retryLoop_fatal:
  "attempt \<le> retries \<Longrightarrow> fn s = (Inl (Thrown e), s') \<Longrightarrow>
   status e = Some 401 \<or> status e = Some 403 \<Longrightarrow>
   retryLoop fn retries d attempt le s = (Inl (Thrown e), s', [Invoke])"
  by (subst retryLoop.simps) auto

lemma retryLoop_undefined:
  "attempt \<le> retries \<Longrightarrow> fn s = (Inl ThrownUndefined, s') \<Longrightarrow>
   retryLoop fn retries d attempt le s = (Inl typeError, s', [Invoke])"
  by (subst retryLoop.simps) simp

lemma retryLoop_outside:
  "attempt \<le> retries \<Longrightarrow> fn s = (Inl OutsideModel, s') \<Longrightarrow>
   retryLoop fn retries d attempt le s = (Inl OutsideModel, s', [Invoke])"
  by (subst retryLoop.simps) simp

lemma retryLoop_rate_limited:
  "attempt \<le> retries \<Longrightarrow> fn s = (Inl (Thrown e), s') \<Longrightarrow> status e = Some 429 \<Longrightarrow>
   retryLoop fn retries d attempt le s =
     emit [Invoke, Sleep (d * attempt * 2)] (retryLoop fn retries d (attempt + 1) (Thrown e) s')"
  by (subst retryLoop.simps) simp

lemma retryLoop_transient:
  "attempt \<le> retries \<Longrightarrow> fn s = (Inl (Thrown e), s') \<Longrightarrow> transient e \<Longrightarrow>
   retryLoop fn retries d attempt le s =
     emit (if attempt < retries then [Invoke, Sleep (d * attempt)] else [Invoke])
       (retryLoop fn retries d (attempt + 1) (Thrown e) s')"
  by (subst retryLoop.simps) (simp add: transient_def)

text \<open>From \<open>attempt\<close> on, the loop has at most \<open>retries - attempt + 1\<close> rounds left.\<close>

lemma retryLoop_invocations:
  "invocations (snd (snd (retryLoop fn retries d attempt le s))) \<le> nat (retries - attempt + 1)"
proof (induction "nat (retries - attempt + 1)" arbitrary: attempt le s)
  case 0
  then have "\<not> attempt \<le> retries" by simp
  then show ?case by (simp add: retryLoop_done invocations_simps)
next
  case (Suc n)
  then have le: "attempt \<le> retries" and n: "n = nat (retries - (attempt + 1) + 1)" by simp_all
  note IH = Suc.hyps(1)[OF n]
  obtain r s' where fs: "fn s = (r, s')" by (cases "fn s")
  show ?case
  proof (cases r)
    case (Inr v)
    with le fs show ?thesis by (simp add: retryLoop_success invocations_simps)
  next
    case (Inl error)
    show ?thesis
    proof (cases error)
      case ThrownUndefined
      with le fs Inl show ?thesis by (simp add: retryLoop_undefined invocations_simps)
    next
      case OutsideModel
      with le fs Inl show ?thesis by (simp add: retryLoop_outside invocations_simps)
    next
      case (Thrown e)
      consider (fatal) "status e = Some 401 \<or> status e = Some 403"
        | (limited) "status e = Some 429"
        | (other) "transient e"
        unfolding transient_def by blast
      then show ?thesis
      proof cases
        case fatal
        with le fs Inl Thrown show ?thesis by (simp add: retryLoop_fatal invocations_simps)
      next
        case limited
        with le fs Inl Thrown IH[of "Thrown e" s'] Suc.hyps(2) n show ?thesis
          by (simp add: retryLoop_rate_limited emit_simps invocations_simps)
      next
        case other
        have one:
          "invocations (if attempt < retries then [Invoke, Sleep (d * attempt)] else [Invoke]) = 1"
          by (simp add: invocations_simps)
        from other le fs Inl Thrown IH[of "Thrown e" s'] Suc.hyps(2) n show ?thesis
          by (simp add: retryLoop_transient emit_simps invocations_simps(4) one split del: if_split)
      qed
    qed
  qed
qed

text \<open>
  \<^bold>\<open>Claim C6.\<close> If the first invocation of the wrapped operation throws an error object
  with status 401 or 403, \<open>callWithRetry\<close> throws that error after exactly one invocation,
  whatever the retry budget (as long as there is a first attempt). And for every
  operation and every budget the operation is invoked at most \<open>retries\<close> times (not at
  all when the budget is zero or negative).
\<close>

theorem callWithRetry_fatal_once_and_bounded:
  "(1 \<le> retries \<and> fn s = (Inl (Thrown e), s') \<and> (status e = Some 401 \<or> status e = Some 403) \<longrightarrow>
      callWithRetry fn retries d s = (Inl (Thrown e), s', [Invoke])
      \<and> invocations (snd (snd (callWithRetry fn retries d s))) = 1)
   \<and> invocations (snd (snd (callWithRetry fn retries d s))) \<le> nat retries
   \<and> (0 \<le> retries \<longrightarrow> int (invocations (snd (snd (callWithRetry fn retries d s)))) \<le> retries)"
proof -
  have bound: "invocations (snd (snd (callWithRetry fn retries d s))) \<le> nat retries"
    using retryLoop_invocations[of fn retries d 1 ThrownUndefined s]
    by (simp add: callWithRetry_def)
  then have "0 \<le> retries \<longrightarrow> int (invocations (snd (snd (callWithRetry fn retries d s)))) \<le> retries"
    by linarith
  moreover have
    "1 \<le> retries \<and> fn s = (Inl (Thrown e), s') \<and> (status e = Some 401 \<or> status e = Some 403) \<longrightarrow>
      callWithRetry fn retries d s = (Inl (Thrown e), s', [Invoke])
      \<and> invocations (snd (snd (callWithRetry fn retries d s))) = 1"
    by (auto simp: callWithRetry_def retryLoop_fatal invocations_simps)
  ultimately show ?thesis using bound by blast
qed

text \<open>An operation that always answers 403, under a budget of five attempts.\<close>

theorem callWithRetry_fatal_once_and_bounded_witness:
  "callWithRetry (\<lambda>n::nat. (Inl (Thrown \<lparr>status = Some 403, code = None, circular = False\<rparr>) :: thrown + string, Suc n))
     5 1000 0 = (Inl (Thrown \<lparr>status = Some 403, code = None, circular = False\<rparr>), 1, [Invoke])
   \<and> invocations (snd (snd (callWithRetry
        (\<lambda>n::nat. (Inl (Thrown \<lparr>status = Some 403, code = None, circular = False\<rparr>) :: thrown + string, Suc n))
        5 1000 0))) = 1
   \<and> int (invocations (snd (snd (callWithRetry
        (\<lambda>n::nat. (Inl (Thrown \<lparr>status = Some 403, code = None, circular = False\<rparr>) :: thrown + string, Suc n))
        5 1000 0)))) \<le> 5"
  using callWithRetry_fatal_once_and_bounded
    [of 5 "\<lambda>n::nat. (Inl (Thrown \<lparr>status = Some 403, code = None, circular = False\<rparr>) :: thrown + string, Suc n)"
        0 "\<lparr>status = Some 403, code = None, circular = False\<rparr>" 1 1000]
  by (simp add: invocations_simps)

text \<open>
  \<^bold>\<open>Claim C7.\<close> An operation that throws a transient error on its first two invocations
  and returns on the third, under a budget of three attempts and a positive base delay:
  \<open>callWithRetry\<close> returns the value after exactly three invocations, sleeping
  \<open>retryDelay * 1\<close> after the first attempt and \<open>retryDelay * 2\<close> after the second, the
  second wait being the longer.
\<close>

theorem callWithRetry_third_attempt_succeeds:
  assumes "fn s0 = (Inl (Thrown e1), s1)" and "transient e1"
    and "fn s1 = (Inl (Thrown e2), s2)" and "transient e2"
    and "fn s2 = (Inr v, s3)"
    and "0 < d"
  shows "callWithRetry fn 3 d s0 = (Inr v, s3, [Invoke, Sleep (d * 1), Invoke, Sleep (d * 2), Invoke])
     \<and> invocations (snd (snd (callWithRetry fn 3 d s0))) = 3
     \<and> sleeps (snd (snd (callWithRetry fn 3 d s0))) = [d * 1, d * 2]
     \<and> d * 1 < d * 2"
proof -
  have third: "retryLoop fn 3 d 3 (Thrown e2) s2 = (Inr v, s3, [Invoke])"
    using assms(5) by (simp add: retryLoop_success)
  have second: "retryLoop fn 3 d 2 (Thrown e1) s1 = (Inr v, s3, [Invoke, Sleep (d * 2), Invoke])"
    using assms(3,4) retryLoop_transient[of 2 3 fn s1 e2 s2 d "Thrown e1"] third
    by (simp add: emit_def)
  have first:
    "callWithRetry fn 3 d s0 = (Inr v, s3, [Invoke, Sleep (d * 1), Invoke, Sleep (d * 2), Invoke])"
    using assms(1,2) retryLoop_transient[of 1 3 fn s0 e1 s1 d ThrownUndefined] second
    by (simp add: emit_def callWithRetry_def)
  show ?thesis using first assms(6) by (simp add: invocations_def sleeps_def)
qed

text \<open>A service that answers 500 twice and then returns, with the default delay.\<close>

theorem callWithRetry_third_attempt_succeeds_witness:
  "callWithRetry
     (\<lambda>n::nat. (if n < 2 then Inl (Thrown \<lparr>status = Some 500, code = None, circular = False\<rparr>) else Inr ''ok'', Suc n))
     3 1000 0 = (Inr ''ok'', 3, [Invoke, Sleep 1000, Invoke, Sleep 2000, Invoke])
   \<and> transient \<lparr>status = Some 500, code = None, circular = False\<rparr>
   \<and> (1000 :: int) * 1 < 1000 * 2"
proof -
  have t: "transient \<lparr>status = Some 500, code = None, circular = False\<rparr>" by (simp add: transient_def)
  from callWithRetry_third_attempt_succeeds
    [of "\<lambda>n::nat. (if n < 2 then Inl (Thrown \<lparr>status = Some 500, code = None, circular = False\<rparr>) else Inr ''ok'', Suc n)"
        0 "\<lparr>status = Some 500, code = None, circular = False\<rparr>" 1 "\<lparr>status = Some 500, code = None, circular = False\<rparr>" 2 "''ok''" 3 1000]
  show ?thesis using t by simp
qed

text \<open>The retry loop only invokes and sleeps.\<close>

lemma retryLoop_events: "list_all retryEvent (snd (snd (retryLoop fn retries d attempt le s)))"
proof (induction "nat (retries - attempt + 1)" arbitrary: attempt le s)
  case 0
  then have "\<not> attempt \<le> retries" by simp
  then show ?case by (simp add: retryLoop_done)
next
  case (Suc n)
  then have le: "attempt \<le> retries" and n: "n = nat (retries - (attempt + 1) + 1)" by simp_all
  note IH = Suc.hyps(1)[OF n]
  obtain r s' where fs: "fn s = (r, s')" by (cases "fn s")
  show ?case
  proof (cases r)
    case (Inr v)
    with le fs show ?thesis by (simp add: retryLoop_success retryEvent_def)
  next
    case (Inl error)
    show ?thesis
    proof (cases error)
      case ThrownUndefined
      with le fs Inl show ?thesis by (simp add: retryLoop_undefined retryEvent_def)
    next
      case OutsideModel
      with le fs Inl show ?thesis by (simp add: retryLoop_outside retryEvent_def)
    next
      case (Thrown e)
      consider (fatal) "status e = Some 401 \<or> status e = Some 403"
        | (limited) "status e = Some 429"
        | (other) "transient e"
        unfolding transient_def by blast
      then show ?thesis
      proof cases
        case fatal
        with le fs Inl Thrown show ?thesis by (simp add: retryLoop_fatal retryEvent_def)
      next
        case limited
        with le fs Inl Thrown IH[of "Thrown e" s'] show ?thesis
          by (simp add: retryLoop_rate_limited emit_simps retryEvent_def)
      next
        case other
        with le fs Inl Thrown IH[of "Thrown e" s'] show ?thesis
          by (simp add: retryLoop_transient emit_simps retryEvent_def)
      qed
    qed
  qed
qed

lemma callWithRetry_no_write:
  "callWithRetry fn retries d s = (r, s', evs) \<Longrightarrow> WriteFile c \<notin> set evs"
proof
  assume run: "callWithRetry fn retries d s = (r, s', evs)" and "WriteFile c \<in> set evs"
  moreover have "list_all retryEvent evs"
    using retryLoop_events[of fn retries d 1 ThrownUndefined s] run by (simp add: callWithRetry_def)
  ultimately have "retryEvent (WriteFile c)" by (simp add: list_all_iff)
  then show False by (simp add: retryEvent_def)
qed

text \<open>The two services of the examples, under a budget of at least one attempt.\<close>

lemma callWithRetry_respond:
  "1 \<le> retries \<Longrightarrow> callWithRetry (respond c t) retries d s = (Inr c, s, [Invoke])"
  by (simp add: callWithRetry_def retryLoop_success respond_def)


subsection \<open>Provider resolution\<close>

lemmas getAIConfig_eval =
  getAIConfig_def toLowerCase_def lowerChar_def getProvider_def AI_PROVIDERS_def
  openaiPreset_def deepseekPreset_def readField_def orElse_def objectPrototypeKeys_def

text \<open>What holds of the resolution: the name is read without regard to case.\<close>

lemma lowerChar_idem: "lowerChar (lowerChar c) = lowerChar c"
  by (simp add: lowerChar_def Let_def)

lemma toLowerCase_idem: "toLowerCase (toLowerCase s) = toLowerCase s"
  by (simp add: toLowerCase_def lowerChar_idem)

lemma toLowerCase_empty: "toLowerCase s = [] \<longleftrightarrow> s = []"
  by (simp add: toLowerCase_def)

lemma envKey_not_provider_variable:
  "getProvider name = Some (Own x) \<Longrightarrow> envKey x \<noteq> ''AI_PROVIDER''"
  by (auto simp: getProvider_def AI_PROVIDERS_def openaiPreset_def deepseekPreset_def
      split: option.splits if_splits)

lemma getAIConfig_case_insensitive:
  "getAIConfig (e(''AI_PROVIDER'' \<mapsto> p)) = getAIConfig (e(''AI_PROVIDER'' \<mapsto> toLowerCase p))"
  by (simp add: getAIConfig_def Let_def toLowerCase_idem toLowerCase_empty)
     (auto simp: readField_def openaiPreset_def split: member.splits option.splits
           dest: envKey_not_provider_variable)

text \<open>An explicit base URL that is not empty wins, whatever the provider.\<close>

lemma getAIConfig_base_url_override:
  "e ''OPENAI_BASE_URL'' = Some u \<Longrightarrow> u \<noteq> [] \<Longrightarrow> baseURL (getAIConfig e) = Some u"
  by (simp add: getAIConfig_def Let_def orElse_def)

text \<open>
  The DeepSeek preset: its URL when no base URL is given, and its own key before the
  generic one.
\<close>

lemma getAIConfig_deepseek:
  "e ''AI_PROVIDER'' = Some p \<Longrightarrow> toLowerCase p = ''deepseek'' \<Longrightarrow>
   e ''OPENAI_BASE_URL'' = None \<or> e ''OPENAI_BASE_URL'' = Some [] \<Longrightarrow>
   baseURL (getAIConfig e) = Some ''https://api.deepseek.com''
   \<and> apiKey (getAIConfig e) = orElse (e ''DEEPSEEK_API_KEY'') (e ''OPENAI_API_KEY'')"
  by (auto simp: getAIConfig_def Let_def orElse_def getProvider_def AI_PROVIDERS_def
      deepseekPreset_def readField_def toLowerCase_def)

text \<open>
  A name for which the property read finds nothing resolves to the default preset; the
  read finds nothing exactly for the names that are neither a provider nor inherited.
\<close>

lemma getAIConfig_unknown_name:
  "e ''AI_PROVIDER'' = Some p \<Longrightarrow> p \<noteq> [] \<Longrightarrow> getProvider (toLowerCase p) = None \<Longrightarrow>
   getAIConfig e =
     \<lparr>provider = toLowerCase p,
      apiKey = orElse (e ''OPENAI_API_KEY'') (e ''OPENAI_API_KEY''),
      baseURL = orElse (e ''OPENAI_BASE_URL'') (Some ''https://api.openai.com/v1''),
      model = orElse (e ''OPENAI_MODEL'') (Some ''gpt-4o-mini'')\<rparr>"
  by (simp add: getAIConfig_def Let_def readField_def openaiPreset_def)

lemma getProvider_None_iff:
  "getProvider name = None \<longleftrightarrow>
     name \<notin> {''openai'', ''deepseek''} \<and> name \<notin> set objectPrototypeKeys"
  by (auto simp: getProvider_def AI_PROVIDERS_def split: option.splits if_splits)

text \<open>
  \<^bold>\<open>Claim C8\<close> says that a provider name that is not recognised resolves to the default
  preset. \<open>getAIConfig\<close> looks the name up with \<^verbatim>\<open>AI_PROVIDERS[provider]\<close>, and for the
  names \<^verbatim>\<open>constructor\<close> and \<^verbatim>\<open>__proto__\<close> that read finds an inherited member of the
  object, which is truthy, so the fallback \<^verbatim>\<open>|| AI_PROVIDERS.openai\<close> is not taken: the
  resolved base URL and model are \<^verbatim>\<open>undefined\<close>, not those of the default preset. A name
  that is unknown and not inherited, such as \<^verbatim>\<open>claude\<close>, does resolve to the default.
\<close>

theorem getAIConfig_inherited_name:
  "getAIConfig (map_of [(''AI_PROVIDER'', ''constructor''), (''OPENAI_API_KEY'', ''sk-test'')]) =
     \<lparr>provider = ''constructor'', apiKey = Some ''sk-test'', baseURL = None, model = None\<rparr>
   \<and> getAIConfig (map_of [(''AI_PROVIDER'', ''__proto__''), (''OPENAI_API_KEY'', ''sk-test'')]) =
     \<lparr>provider = ''__proto__'', apiKey = Some ''sk-test'', baseURL = None, model = None\<rparr>
   \<and> getAIConfig (map_of [(''AI_PROVIDER'', ''claude''), (''OPENAI_API_KEY'', ''sk-test'')]) =
     \<lparr>provider = ''claude'', apiKey = Some ''sk-test'',
      baseURL = Some ''https://api.openai.com/v1'', model = Some ''gpt-4o-mini''\<rparr>"
  by (simp add: getAIConfig_eval)

subsection \<open>Runs of the hook\<close>

lemma filterDiff_no_patterns: "filterDiff d [] = Inr d"
  by (simp add: filterDiff_def)

text \<open>What the example run does with a given service.\<close>

lemma exampleRun_prepared:
  "prepareDiff (exampleRun\<lparr>createCompletion := svc\<rparr>) =
     Inr (Inr (''diff --git a/src/auth.js b/src/auth.js'' @ [NL] @ ''+check(token)'' @ [NL],
               [Print (BuildRunning ''npm run build''), RunBuild ''npm run build'',
                Print BuildPassed, Print Reviewing]))"
  by (simp add: exampleRun_def prepareDiff_def trim_def isSpace_def sliceTo_def filterDiff_no_patterns)

lemma exampleRun_settings:
  "maxRetries (CONFIG (exampleRun\<lparr>createCompletion := svc\<rparr>)) = 3"
  "retryDelay (CONFIG (exampleRun\<lparr>createCompletion := svc\<rparr>)) = 1000"
  "adviceHeading (exampleRun\<lparr>createCompletion := svc\<rparr>) = ''# --- AI Review ---''"
  "writeError (exampleRun\<lparr>createCompletion := svc\<rparr>) = None"
  "skipBuild (CONFIG (exampleRun\<lparr>createCompletion := svc\<rparr>)) = False"
  "buildSucceeds (exampleRun\<lparr>createCompletion := svc\<rparr>) = True"
  "maxRetries (CONFIG exampleRun) = 3"
  "retryDelay (CONFIG exampleRun) = 1000"
  "adviceHeading exampleRun = ''# --- AI Review ---''"
  "writeError exampleRun = None"
  "skipBuild (CONFIG exampleRun) = False"
  "buildSucceeds exampleRun = True"
  by (simp_all add: exampleRun_def)

lemma exampleRun_with:
  "hook (exampleRun\<lparr>createCompletion := svc\<rparr>) () =
     (case callWithRetry
             (svc (''diff --git a/src/auth.js b/src/auth.js'' @ [NL] @ ''+check(token)'' @ [NL]))
             3 1000 () of
        (Inl e, s', evs) \<Rightarrow>
          catchBlock e ([Print (BuildRunning ''npm run build''), RunBuild ''npm run build'',
                         Print BuildPassed, Print Reviewing] @ evs)
      | (Inr completion, s', evs) \<Rightarrow>
          (case handleResult ''# --- AI Review ---'' None completion
                  ([Print (BuildRunning ''npm run build''), RunBuild ''npm run build'',
                    Print BuildPassed, Print Reviewing] @ evs) of
             Inl (error, log) \<Rightarrow> catchBlock error log
           | Inr out \<Rightarrow> out))"
proof -
  have h: "hook (exampleRun\<lparr>createCompletion := svc\<rparr>) () =
        runAIReview (exampleRun\<lparr>createCompletion := svc\<rparr>) ()"
    by (simp add: exampleRun_def hook_def apiKeyCheck_def getAIConfig_eval)
  obtain r s' evs where c:
    "callWithRetry
       (svc (''diff --git a/src/auth.js b/src/auth.js'' @ [NL] @ ''+check(token)'' @ [NL]))
       3 1000 () = (r, s', evs)"
    by (rule prod_cases3)
  show ?thesis
    unfolding h using c
    by (cases r) (simp_all add: runAIReview_def tryBlock_def exampleRun_prepared exampleRun_settings)
qed

lemma exampleRun_passes:
  "hook exampleRun () =
     (Exit 0,
      [Print (BuildRunning ''npm run build''), RunBuild ''npm run build'', Print BuildPassed,
       Print Reviewing, Invoke, WriteFile ''feat(auth): add token check'', Print ReviewPassed,
       Print (GeneratedMessage (JStr ''feat(auth): add token check''))])"
  using exampleRun_with[of "respond passing"]
  by (simp add: exampleRun_def passing_def callWithRetry_respond handleResult_def commitMessage_def
      adviceGiven_def writeFileSync_def ToString_def truthy_def)

text \<open>Scenario B: without a credential the run ends at the key check, exit 0.\<close>

lemma no_api_key_fails_open:
  "hook (exampleRun\<lparr>env := Map.empty\<rparr>) () =
     (Exit 0,
      [Print ApiKeyMissing, Print (CurrentProvider ''openai''), Print (NeedKey ''OPENAI_API_KEY''),
       Print ProvidersAvailable, Print SkipAllowCommit])"
  by (simp add: exampleRun_def hook_def apiKeyCheck_def getAIConfig_eval)

text \<open>
  A pattern whose regular expression does not compile: \<open>filterDiff\<close> throws at the first
  header, the \<^verbatim>\<open>catch\<close> block reports an error, and the review is skipped.
\<close>

lemma syntax_error_pattern_skips_review:
  "patternToRegex ''(/'' = Inl syntaxError
   \<and> hook (exampleRun\<lparr>ignoreFiles := [Some ''(/'']\<rparr>) () =
       (Exit 0, [Print ReviewError, Print SkipAllowCommit])"
proof -
  have bad: "patternToRegex ''(/'' = Inl syntaxError" by code_simp
  have pats: "loadReviewIgnore [Some ''(/''] = [''(/'']"
    by (simp add: trim_def isSpace_def startsWith_def)
  have thrown:
    "filterDiff (''diff --git a/src/auth.js b/src/auth.js'' @ [NL] @ ''+check(token)'' @ [NL]) [''(/'']
       = Inl syntaxError"
    by code_simp
  have "hook (exampleRun\<lparr>ignoreFiles := [Some ''(/'']\<rparr>) () =
       (Exit 0, [Print ReviewError, Print SkipAllowCommit])"
    using thrown
    by (simp add: exampleRun_def hook_def apiKeyCheck_def getAIConfig_eval
        runAIReview_def tryBlock_def prepareDiff_def trim_def isSpace_def pats catchBlock_def
        syntaxError_def plainError_def del: loadReviewIgnore.simps)
  with bad show ?thesis by simp
qed


text \<open>
  \<^bold>\<open>Claim C1.\<close> When the commit source is \<^verbatim>\<open>message\<close>, \<^verbatim>\<open>merge\<close>, \<^verbatim>\<open>squash\<close> or
  \<^verbatim>\<open>commit\<close>, the run ends with exit code 0 after printing one line: the service is not
  invoked and the commit-message file is not written.
\<close>

theorem gate_skips_review:
  "commitSource inp = Some src \<and> src \<in> {''message'', ''merge'', ''squash'', ''commit''} \<longrightarrow>
     hook inp s = (Exit 0, [Print (SkipReview src)])
     \<and> invocations (snd (hook inp s)) = 0
     \<and> (\<forall>content. WriteFile content \<notin> set (snd (hook inp s)))"
  by (auto simp: hook_def skippedSources_def invocations_def)

text \<open>
  Scenario A, a merge commit: exit 0, nothing written, no request; the same run without
  a commit source does make a request.
\<close>

theorem gate_skips_review_witness:
  "commitSource (exampleRun\<lparr>commitSource := Some ''merge''\<rparr>) = Some ''merge''
   \<and> hook (exampleRun\<lparr>commitSource := Some ''merge''\<rparr>) () = (Exit 0, [Print (SkipReview ''merge'')])
   \<and> invocations (snd (hook (exampleRun\<lparr>commitSource := Some ''merge''\<rparr>) ())) = 0
   \<and> (\<forall>content. WriteFile content \<notin> set (snd (hook (exampleRun\<lparr>commitSource := Some ''merge''\<rparr>) ())))
   \<and> invocations (snd (hook exampleRun ())) = 1"
  using gate_skips_review[of "exampleRun\<lparr>commitSource := Some ''merge''\<rparr>" "''merge''" "()"]
  by (simp add: exampleRun_passes invocations_def)

subsection \<open>Directory and root patterns\<close>

text \<open>
  \<^bold>\<open>Claim C2\<close> says that a pattern ending in a slash, such as \<^verbatim>\<open>dist/\<close>, matches every
  path inside a directory of that name, so that a diff lying wholly in \<^verbatim>\<open>dist/\<close> is
  filtered to nothing and no request is made. \<open>patternToRegex\<close> drops the last two
  characters of the source before it appends \<^verbatim>\<open>(/|$)\<close>, but the slash was never escaped
  and is one character: the source for \<^verbatim>\<open>dist/\<close> is \<^verbatim>\<open>(^|/)dis(/|$)\<close>. It accepts paths
  in a directory \<^verbatim>\<open>dis\<close> and rejects \<^verbatim>\<open>dist/bundle.js\<close>; \<open>filterDiff\<close> keeps the whole
  diff, and the run builds, invokes the service and writes the message.
\<close>

theorem directory_pattern_misses_directory:
  "regexSource ''dist/'' = ''(^|/)dis(/|$)''
   \<and> shouldIgnoreFile ''dist/bundle.js'' [''dist/''] = Inr False
   \<and> shouldIgnoreFile ''dis/bundle.js'' [''dist/''] = Inr True
   \<and> filterDiff distDiff [''dist/''] = Inr distDiff
   \<and> hook (exampleRun\<lparr>ignoreFiles := [Some ''dist/''], stagedDiff := Inr distDiff\<rparr>) () =
       (Exit 0,
        [Print (BuildRunning ''npm run build''), RunBuild ''npm run build'', Print BuildPassed,
         Print Reviewing, Invoke, WriteFile ''feat(auth): add token check'', Print ReviewPassed,
         Print (GeneratedMessage (JStr ''feat(auth): add token check''))])"
proof -
  have src: "regexSource ''dist/'' = ''(^|/)dis(/|$)''" by code_simp
  have miss: "shouldIgnoreFile ''dist/bundle.js'' [''dist/''] = Inr False" by code_simp
  have hit: "shouldIgnoreFile ''dis/bundle.js'' [''dist/''] = Inr True" by code_simp
  have keep: "filterDiff distDiff [''dist/''] = Inr distDiff" by code_simp
  have pats: "loadReviewIgnore [Some ''dist/''] = [''dist/'']"
    by (simp add: trim_def isSpace_def startsWith_def)
  have nonblank: "trim distDiff \<noteq> []" by (simp add: distDiff_def trim_def isSpace_def)
  have short: "\<not> 15000 < int (length distDiff)" by (simp add: distDiff_def)
  have run:
    "hook (exampleRun\<lparr>ignoreFiles := [Some ''dist/''], stagedDiff := Inr distDiff\<rparr>) () =
       (Exit 0,
        [Print (BuildRunning ''npm run build''), RunBuild ''npm run build'', Print BuildPassed,
         Print Reviewing, Invoke, WriteFile ''feat(auth): add token check'', Print ReviewPassed,
         Print (GeneratedMessage (JStr ''feat(auth): add token check''))])"
    using nonblank short
    by (simp add: exampleRun_def passing_def hook_def apiKeyCheck_def getAIConfig_eval
        runAIReview_def tryBlock_def prepareDiff_def handleResult_def commitMessage_def
        adviceGiven_def writeFileSync_def ToString_def truthy_def pats keep callWithRetry_respond
        trim_def isSpace_def sliceTo_def del: loadReviewIgnore.simps)
  show ?thesis using src miss hit keep run by blast
qed

text \<open>
  \<^bold>\<open>Claim C3\<close> says that a pattern starting with a slash is anchored at the start of the
  path, so that \<^verbatim>\<open>/dist\<close> matches \<^verbatim>\<open>dist/x.js\<close> and not \<^verbatim>\<open>src/dist/x.js\<close>.
  \<open>patternToRegex\<close> drops the first two characters of the source to remove an escaped
  slash, but the slash was never escaped: the source for \<^verbatim>\<open>/dist\<close> is \<^verbatim>\<open>^ist($|/)\<close>. It
  is anchored, but it rejects \<^verbatim>\<open>dist/x.js\<close> and accepts \<^verbatim>\<open>ist/x.js\<close>.
\<close>

theorem root_pattern_misses_root:
  "regexSource ''/dist'' = ''^ist($|/)''
   \<and> shouldIgnoreFile ''dist/x.js'' [''/dist''] = Inr False
   \<and> shouldIgnoreFile ''src/dist/x.js'' [''/dist''] = Inr False
   \<and> shouldIgnoreFile ''ist/x.js'' [''/dist''] = Inr True"
proof (intro conjI)
  show "regexSource ''/dist'' = ''^ist($|/)''" by code_simp
  show "shouldIgnoreFile ''dist/x.js'' [''/dist''] = Inr False" by code_simp
  show "shouldIgnoreFile ''src/dist/x.js'' [''/dist''] = Inr False" by code_simp
  show "shouldIgnoreFile ''ist/x.js'' [''/dist''] = Inr True" by code_simp
qed

subsection \<open>Throws, writes and exit codes\<close>










text \<open>Steps 0 to 3 write nothing, and throw what the diff fetch or the filter throws.\<close>

lemma prepareDiff_no_write:
  "prepareDiff inp = Inl (t, log) \<Longrightarrow> WriteFile c \<notin> set log"
  "prepareDiff inp = Inr (Inl (e, log)) \<Longrightarrow> WriteFile c \<notin> set log"
  "prepareDiff inp = Inr (Inr (truncatedDiff, log)) \<Longrightarrow> WriteFile c \<notin> set log"
  by (auto simp: prepareDiff_def Let_def split: sum.splits if_splits)




text \<open>The \<^verbatim>\<open>try\<close> block from the request on.\<close>

lemma tryBlock_request:
  "prepareDiff inp = Inr (Inr (truncatedDiff, log)) \<Longrightarrow>
   callWithRetry (createCompletion inp truncatedDiff) (maxRetries (CONFIG inp))
     (retryDelay (CONFIG inp)) s = (r, s', evs) \<Longrightarrow>
   tryBlock inp s =
     (case r of
        Inl t \<Rightarrow> Inl (t, log @ evs)
      | Inr completion \<Rightarrow>
          handleResult (adviceHeading inp) (writeError inp) completion (log @ evs))"
  by (cases r) (simp_all add: tryBlock_def)

text \<open>
  A commit message that is a string was built from a message that converts to a string,
  under a condition that did not throw: the lines printed after the write do not throw.
\<close>

lemma commitMessage_string:
  "commitMessage h v = Inr (JStr c) \<Longrightarrow>
   ToString (message v) \<noteq> None \<and> (\<exists>advice. adviceGiven (reason v) = Inr advice)"
  by (auto simp: commitMessage_def ToString_def split: sum.splits if_splits option.splits jsval.splits)

lemma handleResult_throw_no_write:
  "handleResult h w completion log = Inl (t, log') \<Longrightarrow> WriteFile c \<in> set log' \<Longrightarrow>
   WriteFile c \<in> set log"
  by (auto simp: handleResult_def writeFileSync_def
      split: sum.splits option.splits if_splits jsval.splits dest: commitMessage_string)




lemma handleResult_write:
  "handleResult h w completion log = Inr (e, evs) \<Longrightarrow> WriteFile c \<in> set evs \<Longrightarrow>
   WriteFile c \<notin> set log \<Longrightarrow>
   e = Exit 0 \<and> w = None \<and>
   (\<exists>v. completion = Inr (Some v) \<and> truthy (is_passed v) \<and> commitMessage h v = Inr (JStr c))"
  by (auto simp: handleResult_def writeFileSync_def
      split: sum.splits option.splits if_splits jsval.splits)

text \<open>Nothing is written before a throw out of the \<^verbatim>\<open>try\<close> block.\<close>

lemma tryBlock_cases:
  obtains (threw) t log where "prepareDiff inp = Inl (t, log)" "tryBlock inp s = Inl (t, log)"
  | (ended) out where "prepareDiff inp = Inr (Inl out)" "tryBlock inp s = Inr out"
  | (requested) truncatedDiff log r s' evs where
      "prepareDiff inp = Inr (Inr (truncatedDiff, log))"
      "callWithRetry (createCompletion inp truncatedDiff) (maxRetries (CONFIG inp))
         (retryDelay (CONFIG inp)) s = (r, s', evs)"
      "tryBlock inp s =
         (case r of
            Inl t \<Rightarrow> Inl (t, log @ evs)
          | Inr completion \<Rightarrow>
              handleResult (adviceHeading inp) (writeError inp) completion (log @ evs))"
proof (cases "prepareDiff inp")
  case (Inl a)
  obtain t log where "a = (t, log)" by (cases a)
  with Inl threw show ?thesis by (simp add: tryBlock_def)
next
  case (Inr b)
  show ?thesis
  proof (cases b)
    case (Inl out)
    with Inr ended show ?thesis by (simp add: tryBlock_def)
  next
    case ready: (Inr a)
    obtain truncatedDiff log where a: "a = (truncatedDiff, log)" by (cases a)
    obtain r s' evs where c:
      "callWithRetry (createCompletion inp truncatedDiff) (maxRetries (CONFIG inp))
         (retryDelay (CONFIG inp)) s = (r, s', evs)"
      by (rule prod_cases3)
    have p: "prepareDiff inp = Inr (Inr (truncatedDiff, log))" using Inr ready a by simp
    from requested[OF p c tryBlock_request[OF p c]] show ?thesis .
  qed
qed

lemma tryBlock_throw_no_write:
  assumes "tryBlock inp s = Inl (t, log)"
  shows "WriteFile c \<notin> set log"
proof (cases inp s rule: tryBlock_cases)
  case (threw t' log')
  with assms show ?thesis by (auto dest: prepareDiff_no_write(1))
next
  case (ended out)
  with assms show ?thesis by simp
next
  case (requested truncatedDiff log0 r s' evs)
  have clean: "WriteFile c \<notin> set (log0 @ evs)"
    using prepareDiff_no_write(3)[OF requested(1)] callWithRetry_no_write[OF requested(2)] by auto
  show ?thesis
  proof (cases r)
    case (Inl t')
    with requested(3) assms clean show ?thesis by simp
  next
    case (Inr completion)
    with requested(3) assms
    have "handleResult (adviceHeading inp) (writeError inp) completion (log0 @ evs) = Inl (t, log)"
      by simp
    from handleResult_throw_no_write[OF this] clean show ?thesis by blast
  qed
qed


text \<open>Where a write to the commit-message file comes from.\<close>

lemma catchBlock_no_write:
  "WriteFile c \<in> set (snd (catchBlock t log)) \<Longrightarrow> WriteFile c \<in> set log"
  by (auto simp: catchBlock_def split: thrown.splits if_splits)

lemma tryBlock_write:
  assumes "tryBlock inp s = Inr (e, evs)" and "WriteFile c \<in> set evs"
  shows "e = Exit 0 \<and> writeError inp = None \<and>
   (\<exists>truncatedDiff log s' evs' v.
      prepareDiff inp = Inr (Inr (truncatedDiff, log))
      \<and> callWithRetry (createCompletion inp truncatedDiff) (maxRetries (CONFIG inp))
          (retryDelay (CONFIG inp)) s = (Inr (Inr (Some v)), s', evs')
      \<and> truthy (is_passed v) \<and> commitMessage (adviceHeading inp) v = Inr (JStr c))"
proof (cases inp s rule: tryBlock_cases)
  case (threw t' log')
  with assms show ?thesis by simp
next
  case (ended out)
  with assms prepareDiff_no_write(2)[of inp e evs c] show ?thesis by simp
next
  case (requested truncatedDiff log0 r s' evs')
  have clean: "WriteFile c \<notin> set (log0 @ evs')"
    using prepareDiff_no_write(3)[OF requested(1)] callWithRetry_no_write[OF requested(2)] by auto
  show ?thesis
  proof (cases r)
    case (Inl t)
    with requested(3) assms show ?thesis by simp
  next
    case (Inr completion)
    with requested(3) assms
    have "handleResult (adviceHeading inp) (writeError inp) completion (log0 @ evs') = Inr (e, evs)"
      by simp
    from handleResult_write[OF this assms(2) clean] requested(1,2) Inr show ?thesis by blast
  qed
qed

lemma runAIReview_write:
  assumes "WriteFile c \<in> set (snd (runAIReview inp s))"
  shows "fst (runAIReview inp s) = Exit 0 \<and> writeError inp = None \<and>
   (\<exists>truncatedDiff log s' evs v.
      prepareDiff inp = Inr (Inr (truncatedDiff, log))
      \<and> callWithRetry (createCompletion inp truncatedDiff) (maxRetries (CONFIG inp))
          (retryDelay (CONFIG inp)) s = (Inr (Inr (Some v)), s', evs)
      \<and> truthy (is_passed v) \<and> commitMessage (adviceHeading inp) v = Inr (JStr c))"
proof (cases "tryBlock inp s")
  case (Inl a)
  obtain t log where a: "a = (t, log)" by (cases a)
  with Inl assms have "WriteFile c \<in> set log"
    by (auto simp: runAIReview_def dest: catchBlock_no_write)
  moreover have "WriteFile c \<notin> set log" using Inl a by (auto dest: tryBlock_throw_no_write)
  ultimately show ?thesis by simp
next
  case (Inr out)
  obtain e evs where out: "out = (e, evs)" by (cases out)
  with Inr assms have "WriteFile c \<in> set evs" by (simp add: runAIReview_def)
  from tryBlock_write[OF Inr[unfolded out] this] Inr out show ?thesis
    by (simp add: runAIReview_def)
qed

text \<open>A run that writes the file, or does not exit 0, has passed the gate and the key check.\<close>

lemma hook_reviews:
  "WriteFile c \<in> set (snd (hook inp s)) \<or> fst (hook inp s) \<noteq> Exit 0 \<Longrightarrow>
   hook inp s = runAIReview inp s"
  by (auto simp: hook_def apiKeyCheck_def Let_def split: option.splits if_splits)

text \<open>A run that is not skipped at the gate and has an API key is a run of \<open>runAIReview\<close>.\<close>

lemma hook_passes:
  "\<forall>src. commitSource inp = Some src \<longrightarrow> src \<notin> set skippedSources \<Longrightarrow>
   \<exists>key. apiKey (getAIConfig (env inp)) = Some key \<and> key \<noteq> [] \<Longrightarrow>
   hook inp s = runAIReview inp s"
  by (auto simp: hook_def apiKeyCheck_def Let_def split: option.splits)






subsection \<open>The verdict\<close>

text \<open>
  \<^bold>\<open>Claim C9\<close>, as stated, fails: nothing checks the message of a passing verdict. A
  passing verdict with an empty message empties the commit-message file, and one whose
  message has no colon, so is not of the form \<^verbatim>\<open>type(scope): description\<close>, is written as
  it is; both runs exit 0.
\<close>

theorem unchecked_message_counterexample:
  "hook (exampleRun\<lparr>createCompletion :=
           respond (Inr (Some \<lparr>is_passed = JBool True, reason = JStr [], message = JStr []\<rparr>))\<rparr>) () =
     (Exit 0,
      [Print (BuildRunning ''npm run build''), RunBuild ''npm run build'', Print BuildPassed,
       Print Reviewing, Invoke, WriteFile [], Print ReviewPassed, Print (GeneratedMessage (JStr []))])
   \<and> hook (exampleRun\<lparr>createCompletion :=
           respond (Inr (Some \<lparr>is_passed = JBool True, reason = JStr [], message = JStr ''wip''\<rparr>))\<rparr>) () =
     (Exit 0,
      [Print (BuildRunning ''npm run build''), RunBuild ''npm run build'', Print BuildPassed,
       Print Reviewing, Invoke, WriteFile ''wip'', Print ReviewPassed,
       Print (GeneratedMessage (JStr ''wip''))])
   \<and> CHR '':'' \<notin> set ''wip''"
  by (simp add: exampleRun_with callWithRetry_respond handleResult_def commitMessage_def
      adviceGiven_def writeFileSync_def ToString_def truthy_def)

text \<open>What the commit message is, by the cases of the reason.\<close>

lemma commitMessage_plain:
  "\<not> truthy (reason v) \<or> (\<exists>r. reason v = JStr r \<and> trim r = []) \<Longrightarrow>
   commitMessage h v = Inr (message v)"
  by (auto simp: commitMessage_def adviceGiven_def)

lemma commitMessage_advice:
  "reason v = JStr r \<Longrightarrow> trim r \<noteq> [] \<Longrightarrow> ToString (message v) = Some m \<Longrightarrow>
   commitMessage h v = Inr (JStr (m @ [NL, NL] @ h @ [NL] @ commentLines r))"
  by (auto simp: commitMessage_def adviceGiven_def truthy_def trim_def)

text \<open>Step 5 on a parsed response, by the cases of \<^verbatim>\<open>is_passed\<close>.\<close>

lemma handleResult_passed:
  "truthy (is_passed v) \<Longrightarrow> commitMessage h v = Inr (JStr content) \<Longrightarrow>
   handleResult h None (Inr (Some v)) log =
     Inr (Exit 0,
          log @ [WriteFile content, Print ReviewPassed, Print (GeneratedMessage (message v))] @
          (if adviceGiven (reason v) = Inr True then [Print (Suggestion (reason v))] else []))"
  using commitMessage_string[of h v content]
  by (auto simp: handleResult_def writeFileSync_def)

lemma handleResult_not_written:
  "truthy (is_passed v) \<Longrightarrow> \<forall>content. commitMessage h v \<noteq> Inr (JStr content) \<Longrightarrow>
   \<exists>e. handleResult h w (Inr (Some v)) log = Inl (Thrown e, log) \<and> \<not> circular e
        \<and> code e \<noteq> Some ''ECONNREFUSED'' \<and> code e \<noteq> Some ''ETIMEDOUT''
        \<and> status e = None"
  by (auto simp: handleResult_def writeFileSync_def commitMessage_def adviceGiven_def
      typeError_def plainError_def invalidArgType_def
      split: sum.splits option.splits if_splits jsval.splits)

lemma handleResult_rejected:
  "\<not> truthy (is_passed v) \<Longrightarrow>
   handleResult h w (Inr (Some v)) log =
     (if ToString (reason v) = None then Inl (typeError, log @ [Print ReviewFailed])
      else Inr (Exit 1, log @ [Print ReviewFailed, Print (Reason (reason v)), Print BypassHint]))"
  by (auto simp: handleResult_def)

text \<open>Whole runs, by the parsed response they receive.\<close>

lemma hook_write:
  assumes "WriteFile c \<in> set (snd (hook inp s))"
  shows "fst (hook inp s) = Exit 0 \<and> writeError inp = None \<and>
   (\<exists>truncatedDiff log s' evs result.
      prepareDiff inp = Inr (Inr (truncatedDiff, log))
      \<and> callWithRetry (createCompletion inp truncatedDiff) (maxRetries (CONFIG inp))
          (retryDelay (CONFIG inp)) s = (Inr (Inr (Some result)), s', evs)
      \<and> truthy (is_passed result) \<and> commitMessage (adviceHeading inp) result = Inr (JStr c))"
proof -
  from assms have h: "hook inp s = runAIReview inp s" by (rule hook_reviews[OF disjI1])
  with assms runAIReview_write[of c inp s] show ?thesis by simp
qed

lemma runAIReview_no_write:
  assumes "prepareDiff inp = Inr (Inr (truncatedDiff, log))"
    and "callWithRetry (createCompletion inp truncatedDiff) (maxRetries (CONFIG inp))
           (retryDelay (CONFIG inp)) s = (Inr (Inr (Some v)), s', evs)"
    and "\<not> truthy (is_passed v) \<or> (\<forall>content. commitMessage (adviceHeading inp) v \<noteq> Inr (JStr content))"
  shows "WriteFile c \<notin> set (snd (runAIReview inp s))"
proof
  assume "WriteFile c \<in> set (snd (runAIReview inp s))"
  from runAIReview_write[OF this] assms show False by auto
qed

lemma runAIReview_passed:
  assumes "prepareDiff inp = Inr (Inr (truncatedDiff, log))"
    and "callWithRetry (createCompletion inp truncatedDiff) (maxRetries (CONFIG inp))
           (retryDelay (CONFIG inp)) s = (Inr (Inr (Some v)), s', evs)"
    and "truthy (is_passed v)" and "commitMessage (adviceHeading inp) v = Inr (JStr content)"
    and "writeError inp = None"
  shows "runAIReview inp s =
     (Exit 0,
      log @ evs @ [WriteFile content, Print ReviewPassed, Print (GeneratedMessage (message v))] @
      (if adviceGiven (reason v) = Inr True then [Print (Suggestion (reason v))] else []))"
  using tryBlock_request[OF assms(1,2)] handleResult_passed[OF assms(3,4)] assms(5)
  by (simp add: runAIReview_def)

lemma runAIReview_not_written:
  assumes "prepareDiff inp = Inr (Inr (truncatedDiff, log))"
    and "callWithRetry (createCompletion inp truncatedDiff) (maxRetries (CONFIG inp))
           (retryDelay (CONFIG inp)) s = (Inr (Inr (Some v)), s', evs)"
    and "truthy (is_passed v)"
    and "\<forall>content. commitMessage (adviceHeading inp) v \<noteq> Inr (JStr content)"
  shows "runAIReview inp s = (Exit 0, log @ evs @ [Print ReviewError, Print SkipAllowCommit])"
proof -
  from handleResult_not_written[OF assms(3,4), of "writeError inp" "log @ evs"]
  obtain e where
    "handleResult (adviceHeading inp) (writeError inp) (Inr (Some v)) (log @ evs) =
       Inl (Thrown e, log @ evs)"
    "\<not> circular e" "code e \<noteq> Some ''ECONNREFUSED''" "code e \<noteq> Some ''ETIMEDOUT''" "status e = None"
    by blast
  with tryBlock_request[OF assms(1,2)] show ?thesis
    by (simp add: runAIReview_def catchBlock_def)
qed

lemma runAIReview_rejected:
  assumes "prepareDiff inp = Inr (Inr (truncatedDiff, log))"
    and "callWithRetry (createCompletion inp truncatedDiff) (maxRetries (CONFIG inp))
           (retryDelay (CONFIG inp)) s = (Inr (Inr (Some v)), s', evs)"
    and "\<not> truthy (is_passed v)"
  shows "runAIReview inp s =
     (if ToString (reason v) = None
      then (Exit 0, log @ evs @ [Print ReviewFailed, Print ReviewError, Print SkipAllowCommit])
      else (Exit 1, log @ evs @ [Print ReviewFailed, Print (Reason (reason v)), Print BypassHint]))"
  using tryBlock_request[OF assms(1,2)] handleResult_rejected[OF assms(3)]
  by (simp add: runAIReview_def catchBlock_def typeError_def plainError_def)

text \<open>
  \<^bold>\<open>Claim C9, amended.\<close> The commit-message file is written only in a run that exits 0
  on a parsed response, received for the diff that was sent, whose \<^verbatim>\<open>is_passed\<close> is truthy,
  and what is written is the commit message built from that response, with no check of
  its content. That is the message as received when it is a string and the reason is
  falsy or blank; and when the reason is a string that is not blank, it is the message
  converted to a string, be it absent or of another type, followed by the heading and the
  commented reason. When no string is built (a message that is not a string and no
  advice, or a truthy reason that is not a string) nothing is written and the run exits 0.
  When \<^verbatim>\<open>is_passed\<close> is falsy the file is not written, and the run prints the reason and
  exits with code 1, unless the reason cannot be converted to a string, where it exits 0.
\<close>

theorem verdict_decides_the_write:
  "(WriteFile c \<in> set (snd (hook inp s)) \<longrightarrow>
      fst (hook inp s) = Exit 0 \<and> writeError inp = None \<and>
      (\<exists>truncatedDiff log s' evs result.
         prepareDiff inp = Inr (Inr (truncatedDiff, log))
         \<and> callWithRetry (createCompletion inp truncatedDiff) (maxRetries (CONFIG inp))
             (retryDelay (CONFIG inp)) s = (Inr (Inr (Some result)), s', evs)
         \<and> truthy (is_passed result)
         \<and> commitMessage (adviceHeading inp) result = Inr (JStr c)))
   \<and> ((\<forall>src. commitSource inp = Some src \<longrightarrow> src \<notin> set skippedSources)
      \<and> (\<exists>key. apiKey (getAIConfig (env inp)) = Some key \<and> key \<noteq> [])
      \<and> prepareDiff inp = Inr (Inr (truncatedDiff, log))
      \<and> callWithRetry (createCompletion inp truncatedDiff) (maxRetries (CONFIG inp))
          (retryDelay (CONFIG inp)) s = (Inr (Inr (Some v)), s', evs) \<longrightarrow>
        (truthy (is_passed v) \<and> commitMessage (adviceHeading inp) v = Inr (JStr content)
         \<and> writeError inp = None \<longrightarrow>
           hook inp s =
             (Exit 0,
              log @ evs @
              [WriteFile content, Print ReviewPassed, Print (GeneratedMessage (message v))] @
              (if adviceGiven (reason v) = Inr True then [Print (Suggestion (reason v))] else [])))
        \<and> (truthy (is_passed v)
           \<and> (\<forall>content. commitMessage (adviceHeading inp) v \<noteq> Inr (JStr content)) \<longrightarrow>
             hook inp s = (Exit 0, log @ evs @ [Print ReviewError, Print SkipAllowCommit])
             \<and> (\<forall>content. WriteFile content \<notin> set (snd (hook inp s))))
        \<and> (\<not> truthy (is_passed v) \<longrightarrow>
             (\<forall>content. WriteFile content \<notin> set (snd (hook inp s)))
             \<and> (ToString (reason v) \<noteq> None \<longrightarrow>
                  hook inp s =
                    (Exit 1,
                     log @ evs @
                     [Print ReviewFailed, Print (Reason (reason v)), Print BypassHint]))
             \<and> (ToString (reason v) = None \<longrightarrow>
                  hook inp s =
                    (Exit 0,
                     log @ evs @
                     [Print ReviewFailed, Print ReviewError, Print SkipAllowCommit]))))
   \<and> (message v = JStr m \<and> (\<not> truthy (reason v) \<or> (\<exists>r. reason v = JStr r \<and> trim r = [])) \<longrightarrow>
        commitMessage h v = Inr (JStr m))
   \<and> (reason v = JStr r \<and> trim r \<noteq> [] \<and> ToString (message v) = Some m \<longrightarrow>
        commitMessage h v = Inr (JStr (m @ [NL, NL] @ h @ [NL] @ commentLines r)))"
  (is "?written \<and> (?received \<longrightarrow> ?passed \<and> ?failed \<and> ?rejected) \<and> ?plain \<and> ?advice")
proof -
  have written: ?written using hook_write[of c inp s] by blast
  have plain: ?plain using commitMessage_plain[of v h] by auto
  have advice: ?advice using commitMessage_advice[of v r m h] by blast
  have received: "?passed \<and> ?failed \<and> ?rejected" if ?received
  proof -
    from that have gate: "\<forall>src. commitSource inp = Some src \<longrightarrow> src \<notin> set skippedSources"
      and key: "\<exists>key. apiKey (getAIConfig (env inp)) = Some key \<and> key \<noteq> []"
      and p: "prepareDiff inp = Inr (Inr (truncatedDiff, log))"
      and c: "callWithRetry (createCompletion inp truncatedDiff) (maxRetries (CONFIG inp))
                (retryDelay (CONFIG inp)) s = (Inr (Inr (Some v)), s', evs)"
      by blast+
    have h: "hook inp s = runAIReview inp s" using gate key by (rule hook_passes)
    have ?passed unfolding h using runAIReview_passed[OF p c] by blast
    moreover have ?failed
      unfolding h using runAIReview_not_written[OF p c] runAIReview_no_write[OF p c] by blast
    moreover have ?rejected
    proof (cases "truthy (is_passed v)")
      case True
      then show ?thesis by simp
    next
      case False
      have untouched: "\<forall>content. WriteFile content \<notin> set (snd (hook inp s))"
        unfolding h using runAIReview_no_write[OF p c disjI1[OF False]] by blast
      have printed: "ToString (reason v) \<noteq> None \<longrightarrow>
          hook inp s =
            (Exit 1, log @ evs @ [Print ReviewFailed, Print (Reason (reason v)), Print BypassHint])"
        unfolding h using runAIReview_rejected[OF p c False] by simp
      have caught: "ToString (reason v) = None \<longrightarrow>
          hook inp s =
            (Exit 0, log @ evs @ [Print ReviewFailed, Print ReviewError, Print SkipAllowCommit])"
        unfolding h using runAIReview_rejected[OF p c False] by simp
      from untouched printed caught show ?thesis by blast
    qed
    ultimately show ?thesis by blast
  qed
  from written received plain advice show ?thesis by blast
qed

text \<open>
  The example run writes the message of the passing verdict. A passing verdict without a
  message and with advice writes \<^verbatim>\<open>undefined\<close> and the advice, exit 0; without advice the
  write throws and the run exits 0 with the file untouched. Scenario E, a rejection:
  exit 1, the reason printed, no write. A rejection whose reason cannot be converted
  throws while printing it and exits 0.
\<close>

theorem verdict_decides_the_write_witness:
  "fst (hook exampleRun ()) = Exit 0
   \<and> hook
       (exampleRun\<lparr>createCompletion := respond (Inr (Some
          \<lparr>is_passed = JBool True, reason = JStr ''rename x'', message = JUndefined\<rparr>))\<rparr>) () =
       (Exit 0,
        [Print (BuildRunning ''npm run build''), RunBuild ''npm run build'', Print BuildPassed,
         Print Reviewing, Invoke,
         WriteFile (''undefined'' @ [NL, NL] @ ''# --- AI Review ---'' @ [NL] @ ''# rename x''),
         Print ReviewPassed, Print (GeneratedMessage JUndefined),
         Print (Suggestion (JStr ''rename x''))])
   \<and> hook
       (exampleRun\<lparr>createCompletion := respond (Inr (Some
          \<lparr>is_passed = JBool True, reason = JUndefined, message = JUndefined\<rparr>))\<rparr>) () =
       (Exit 0,
        [Print (BuildRunning ''npm run build''), RunBuild ''npm run build'', Print BuildPassed,
         Print Reviewing, Invoke, Print ReviewError, Print SkipAllowCommit])
   \<and> hook
       (exampleRun\<lparr>createCompletion := respond (Inr (Some
          \<lparr>is_passed = JBool False, reason = JStr ''hardcoded secret detected'',
             message = JUndefined\<rparr>))\<rparr>) () =
       (Exit 1,
        [Print (BuildRunning ''npm run build''), RunBuild ''npm run build'', Print BuildPassed,
         Print Reviewing, Invoke, Print ReviewFailed,
         Print (Reason (JStr ''hardcoded secret detected'')), Print BypassHint])
   \<and> (\<forall>content. WriteFile content \<notin> set (snd (hook
         (exampleRun\<lparr>createCompletion := respond (Inr (Some
            \<lparr>is_passed = JBool False, reason = JStr ''hardcoded secret detected'',
               message = JUndefined\<rparr>))\<rparr>) ())))
   \<and> hook
       (exampleRun\<lparr>createCompletion := respond (Inr (Some
          \<lparr>is_passed = JBool False, reason = JObject None, message = JUndefined\<rparr>))\<rparr>) () =
       (Exit 0,
        [Print (BuildRunning ''npm run build''), RunBuild ''npm run build'', Print BuildPassed,
         Print Reviewing, Invoke, Print ReviewFailed, Print ReviewError, Print SkipAllowCommit])
   \<and> commitMessage ''# --- AI Review ---''
        \<lparr>is_passed = JBool True, reason = JStr [], message = JStr ''feat(auth): add token check''\<rparr> =
       Inr (JStr ''feat(auth): add token check'')
   \<and> commitMessage ''# --- AI Review ---''
        \<lparr>is_passed = JBool True, reason = JStr ''rename x'', message = JUndefined\<rparr> =
       Inr (JStr (''undefined'' @ [NL, NL] @ ''# --- AI Review ---'' @ [NL] @ ''# rename x''))"
proof -
  let ?d = "''diff --git a/src/auth.js b/src/auth.js'' @ [NL] @ ''+check(token)'' @ [NL]"
  let ?log = "[Print (BuildRunning ''npm run build''), RunBuild ''npm run build'',
               Print BuildPassed, Print Reviewing]"
  let ?advised = "\<lparr>is_passed = JBool True, reason = JStr ''rename x'', message = JUndefined\<rparr>"
  let ?bare = "\<lparr>is_passed = JBool True, reason = JUndefined, message = JUndefined\<rparr>"
  let ?secret = "\<lparr>is_passed = JBool False, reason = JStr ''hardcoded secret detected'',
                   message = JUndefined\<rparr>"
  let ?opaque = "\<lparr>is_passed = JBool False, reason = JObject None, message = JUndefined\<rparr>"
  let ?plain = "\<lparr>is_passed = JBool True, reason = JStr [],
                  message = JStr ''feat(auth): add token check''\<rparr>"
  let ?run = "\<lambda>v. exampleRun\<lparr>createCompletion := respond (Inr (Some v))\<rparr>"
  have gate: "\<forall>src. commitSource (?run v) = Some src \<longrightarrow> src \<notin> set skippedSources" for v
    by (simp add: exampleRun_def)
  have key: "\<exists>key. apiKey (getAIConfig (env (?run v))) = Some key \<and> key \<noteq> []" for v
    by (simp add: exampleRun_def getAIConfig_eval)
  have request: "prepareDiff (?run v) = Inr (Inr (?d, ?log))
      \<and> callWithRetry (createCompletion (?run v) ?d) (maxRetries (CONFIG (?run v)))
          (retryDelay (CONFIG (?run v))) () = (Inr (Inr (Some v)), (), [Invoke])" for v
    by (simp add: exampleRun_prepared exampleRun_settings callWithRetry_respond)
  note received = conjI[OF gate conjI[OF key request]]
  have written: "WriteFile ''feat(auth): add token check'' \<in> set (snd (hook exampleRun ()))"
    by (simp add: exampleRun_passes)
  have lines: "commentLines ''rename x'' = ''# rename x''" by (simp add: commentLines_def)
  have blank: "trim ''rename x'' \<noteq> []" "trim [] = []" by (simp_all add: trim_def isSpace_def)
  have advice: "adviceGiven (JStr ''rename x'') = Inr True"
    using blank by (simp add: adviceGiven_def truthy_def)
  note plain = verdict_decides_the_write
      [where v = ?plain and m = "''feat(auth): add token check''" and h = "''# --- AI Review ---''",
       THEN conjunct2, THEN conjunct2, THEN conjunct1]
  note advised = verdict_decides_the_write
      [where v = ?advised and m = "''undefined''" and r = "''rename x''"
         and h = "''# --- AI Review ---''",
       THEN conjunct2, THEN conjunct2, THEN conjunct2]
  have built: "commitMessage ''# --- AI Review ---'' ?advised =
      Inr (JStr (''undefined'' @ [NL, NL] @ ''# --- AI Review ---'' @ [NL] @ ''# rename x''))"
    using advised blank lines by (simp add: ToString_def)
  have unbuilt: "\<forall>content. commitMessage ''# --- AI Review ---'' ?bare \<noteq> Inr (JStr content)"
    by (simp add: commitMessage_def adviceGiven_def truthy_def)
  from verdict_decides_the_write
         [where inp = exampleRun and s = "()" and c = "''feat(auth): add token check''",
          THEN conjunct1, THEN mp, OF written]
  have gate: "fst (hook exampleRun ()) = Exit 0" by simp
  from verdict_decides_the_write
         [where inp = "?run ?advised" and v = ?advised and s = "()" and truncatedDiff = ?d
            and log = ?log and s' = "()" and evs = "[Invoke]"
            and content = "''undefined'' @ [NL, NL] @ ''# --- AI Review ---'' @ [NL] @ ''# rename x''",
          THEN conjunct2, THEN conjunct1, THEN mp, OF received, THEN conjunct1]
  have r1: "hook (?run ?advised) () =
       (Exit 0,
        ?log @ [Invoke,
         WriteFile (''undefined'' @ [NL, NL] @ ''# --- AI Review ---'' @ [NL] @ ''# rename x''),
         Print ReviewPassed, Print (GeneratedMessage JUndefined),
         Print (Suggestion (JStr ''rename x''))])"
    using built advice by (simp add: truthy_def exampleRun_settings)
  from verdict_decides_the_write
         [where inp = "?run ?bare" and v = ?bare and s = "()" and truncatedDiff = ?d
            and log = ?log and s' = "()" and evs = "[Invoke]",
          THEN conjunct2, THEN conjunct1, THEN mp, OF received, THEN conjunct2, THEN conjunct1]
  have r2: "hook (?run ?bare) () =
       (Exit 0, ?log @ [Invoke, Print ReviewError, Print SkipAllowCommit])"
    using unbuilt by (simp add: truthy_def exampleRun_settings)
  from verdict_decides_the_write
         [where inp = "?run ?secret" and v = ?secret and s = "()" and truncatedDiff = ?d
            and log = ?log and s' = "()" and evs = "[Invoke]",
          THEN conjunct2, THEN conjunct1, THEN mp, OF received, THEN conjunct2, THEN conjunct2]
  have r3: "hook (?run ?secret) () =
       (Exit 1, ?log @ [Invoke, Print ReviewFailed,
                        Print (Reason (JStr ''hardcoded secret detected'')), Print BypassHint])
     \<and> (\<forall>content. WriteFile content \<notin> set (snd (hook (?run ?secret) ())))"
    by (simp add: truthy_def ToString_def)
  from verdict_decides_the_write
         [where inp = "?run ?opaque" and v = ?opaque and s = "()" and truncatedDiff = ?d
            and log = ?log and s' = "()" and evs = "[Invoke]",
          THEN conjunct2, THEN conjunct1, THEN mp, OF received, THEN conjunct2, THEN conjunct2]
  have r4: "hook (?run ?opaque) () =
       (Exit 0, ?log @ [Invoke, Print ReviewFailed, Print ReviewError, Print SkipAllowCommit])"
    by (simp add: truthy_def ToString_def)
  from plain have p: "commitMessage ''# --- AI Review ---'' ?plain =
       Inr (JStr ''feat(auth): add token check'')"
    by (simp add: truthy_def)
  from gate r1 r2 r3 r4 p built show ?thesis by simp
qed

subsection \<open>Failing open\<close>











end
